theory Spec2Isabelle
  imports Complex_Main "HOL-Library.Word"
begin

section \<open>JavaScript values\<close>

text \<open>
  The quality checker of the patent-disclosure assistant (\<^verbatim>\<open>js/quality-checker.js\<close>) is
  embedded function by function. A JavaScript string is its sequence of UTF-16 code
  units, since that is what \<^verbatim>\<open>.length\<close> counts and what \<^verbatim>\<open>.trim()\<close> works on. Property
  names are the ASCII identifiers of the source and are kept as HOL strings.
\<close>

type_synonym jsstring = "16 word list"

text \<open>
  Numbers are IEEE doubles in JavaScript. The checker never computes with a number that
  it reads from a document; it only tests such a value for truthiness. A number is
  therefore kept as \<open>NaN\<close> or a rational; zero (of either sign) and \<open>NaN\<close> are the falsy ones.
\<close>

datatype jsnum = NaN | Finite rat

datatype jsval =
    JUndefined
  | JNull
  | JBool bool
  | JNum jsnum
  | JStr jsstring
  | JArr "jsval list"
  | JObj "(string \<times> jsval) list"

datatype error = TypeError

text \<open>The code units of an ASCII literal of the source.\<close>

definition utf16 :: "string \<Rightarrow> jsstring" where
  "utf16 s = map (\<lambda>c. of_nat (of_char c)) s"

text \<open>A document record is an object: a finite map from property names to values.
  Reading a property that is absent gives \<^verbatim>\<open>undefined\<close>.\<close>

type_synonym obj = "string \<rightharpoonup> jsval"

definition getProp :: "obj \<Rightarrow> string \<Rightarrow> jsval" where
  "getProp data k = (case data k of None \<Rightarrow> JUndefined | Some v \<Rightarrow> v)"

text \<open>ToBoolean.\<close>

fun truthy :: "jsval \<Rightarrow> bool" where
  "truthy JUndefined = False"
| "truthy JNull = False"
| "truthy (JBool b) = b"
| "truthy (JNum NaN) = False"
| "truthy (JNum (Finite q)) = (q \<noteq> 0)"
| "truthy (JStr s) = (s \<noteq> [])"
| "truthy (JArr xs) = True"
| "truthy (JObj ps) = True"

text \<open>\<^verbatim>\<open>a && b\<close>: the value of \<open>a\<close> when it is falsy, and only otherwise the outcome of
  evaluating \<open>b\<close>, which may throw.\<close>

definition js_and :: "jsval \<Rightarrow> error + jsval \<Rightarrow> error + jsval" where
  "js_and a b = (if truthy a then b else Inr a)"

text \<open>\<^verbatim>\<open>Array.isArray(v) && e\<close>, where \<open>e\<close> reads the elements of \<open>v\<close>: \<^verbatim>\<open>false\<close> for every
  value that is not an array, without evaluating \<open>e\<close>.\<close>

definition ifArray :: "jsval \<Rightarrow> (jsval list \<Rightarrow> jsval) \<Rightarrow> jsval" where
  "ifArray v e = (case v of JArr xs \<Rightarrow> e xs | _ \<Rightarrow> JBool False)"

text \<open>
  \<^verbatim>\<open>String.prototype.trim\<close> removes the WhiteSpace and LineTerminator code points of
  ECMAScript from both ends: TAB, LF, VT, FF, CR, SP, NBSP, the Unicode space separators
  (U+1680, U+2000..U+200A, U+202F, U+205F, U+3000), LS, PS and the byte-order mark. All
  of them are single code units.
\<close>

definition isWhiteSpace :: "16 word \<Rightarrow> bool" where
  "isWhiteSpace c = (c \<in> set [0x9, 0xA, 0xB, 0xC, 0xD, 0x20, 0xA0, 0x1680,
     0x2000, 0x2001, 0x2002, 0x2003, 0x2004, 0x2005, 0x2006, 0x2007, 0x2008, 0x2009, 0x200A,
     0x2028, 0x2029, 0x202F, 0x205F, 0x3000, 0xFEFF])"

definition trim :: "jsstring \<Rightarrow> jsstring" where
  "trim s = rev (dropWhile isWhiteSpace (rev (dropWhile isWhiteSpace s)))"

text \<open>
  \<^verbatim>\<open>v.trim().length\<close> compared with a bound. Only a string has a \<^verbatim>\<open>trim\<close> method; on
  \<^verbatim>\<open>undefined\<close> and \<^verbatim>\<open>null\<close> the property access throws, on every other value the call does
  (the model has no function values, so no object carries a callable \<^verbatim>\<open>trim\<close>).
\<close>

definition trimLengthTest :: "jsval \<Rightarrow> (nat \<Rightarrow> bool) \<Rightarrow> error + jsval" where
  "trimLengthTest v p = (case v of JStr s \<Rightarrow> Inr (JBool (p (length (trim s)))) | _ \<Rightarrow> Inl TypeError)"

section \<open>The rule registry\<close>

record rule =
  rule_id :: jsstring
  rule_name :: jsstring
  rule_description :: jsstring
  check :: "obj \<Rightarrow> error + jsval"
  rule_severity :: jsstring
  rule_suggestion :: jsstring

text \<open>\<^verbatim>\<open>initCheckRules\<close>: the five categories in the order of the object literal, each
  with its rules in order. The names, descriptions and suggestions are the Chinese
  literals of the source, code unit by code unit.\<close>

definition basicInfo_rules :: "rule list" where
  "basicInfo_rules = [
    \<lparr>rule_id = utf16 ''title'',
      rule_name = [0x6587, 0x6863, 0x6807, 0x9898],
      rule_description = [0x6587, 0x6863, 0x6807, 0x9898, 0x662F, 0x5426, 0x586B, 0x5199, 0x4E14, 0x6709, 0x610F, 0x4E49],
      check = (\<lambda>data. js_and (getProp data ''title'') (trimLengthTest (getProp data ''title'') (\<lambda>n. n > 0))),
      rule_severity = utf16 ''error'',
      rule_suggestion = [0x8BF7, 0x586B, 0x5199, 0x6587, 0x6863, 0x6807, 0x9898]\<rparr>,
    \<lparr>rule_id = utf16 ''technicalField'',
      rule_name = [0x6280, 0x672F, 0x9886, 0x57DF],
      rule_description = [0x6280, 0x672F, 0x9886, 0x57DF, 0x662F, 0x5426, 0x660E, 0x786E, 0x5177, 0x4F53],
      check = (\<lambda>data. js_and (getProp data ''technicalField'') (trimLengthTest (getProp data ''technicalField'') (\<lambda>n. n \<ge> 10))),
      rule_severity = utf16 ''warning'',
      rule_suggestion = [0x6280, 0x672F, 0x9886, 0x57DF, 0x63CF, 0x8FF0, 0x5E94, 0x81F3, 0x5C11, 0x31, 0x30, 0x4E2A, 0x5B57, 0x7B26, 0xFF0C, 0x5E76, 0x660E, 0x786E, 0x5177, 0x4F53]\<rparr>,
    \<lparr>rule_id = utf16 ''inventor'',
      rule_name = [0x53D1, 0x660E, 0x4EBA],
      rule_description = [0x53D1, 0x660E, 0x4EBA, 0x4FE1, 0x606F, 0x662F, 0x5426, 0x5B8C, 0x6574],
      check = (\<lambda>data. js_and (getProp data ''inventor'') (trimLengthTest (getProp data ''inventor'') (\<lambda>n. n > 0))),
      rule_severity = utf16 ''error'',
      rule_suggestion = [0x8BF7, 0x586B, 0x5199, 0x53D1, 0x660E, 0x4EBA, 0x59D3, 0x540D]\<rparr>]"

definition backgroundTech_rules :: "rule list" where
  "backgroundTech_rules = [
    \<lparr>rule_id = utf16 ''backgroundTechnology'',
      rule_name = [0x80CC, 0x666F, 0x6280, 0x672F, 0x63CF, 0x8FF0],
      rule_description = [0x80CC, 0x666F, 0x6280, 0x672F, 0x63CF, 0x8FF0, 0x662F, 0x5426, 0x8BE6, 0x7EC6],
      check = (\<lambda>data. js_and (getProp data ''backgroundTechnology'') (trimLengthTest (getProp data ''backgroundTechnology'') (\<lambda>n. n \<ge> 50))),
      rule_severity = utf16 ''warning'',
      rule_suggestion = [0x80CC, 0x666F, 0x6280, 0x672F, 0x63CF, 0x8FF0, 0x5E94, 0x81F3, 0x5C11, 0x35, 0x30, 0x4E2A, 0x5B57, 0x7B26, 0xFF0C, 0x8BE6, 0x7EC6, 0x8BF4, 0x660E, 0x73B0, 0x6709, 0x6280, 0x672F, 0x72B6, 0x51B5]\<rparr>,
    \<lparr>rule_id = utf16 ''currentProblems'',
      rule_name = [0x73B0, 0x6709, 0x6280, 0x672F, 0x95EE, 0x9898],
      rule_description = [0x662F, 0x5426, 0x660E, 0x786E, 0x6307, 0x51FA, 0x73B0, 0x6709, 0x6280, 0x672F, 0x5B58, 0x5728, 0x7684, 0x95EE, 0x9898],
      check = (\<lambda>data. js_and (getProp data ''currentProblems'') (trimLengthTest (getProp data ''currentProblems'') (\<lambda>n. n \<ge> 30))),
      rule_severity = utf16 ''error'',
      rule_suggestion = [0x8BF7, 0x8BE6, 0x7EC6, 0x63CF, 0x8FF0, 0x73B0, 0x6709, 0x6280, 0x672F, 0x5B58, 0x5728, 0x7684, 0x95EE, 0x9898, 0xFF0C, 0x4E0D, 0x5C11, 0x4E8E, 0x33, 0x30, 0x4E2A, 0x5B57, 0x7B26]\<rparr>]"

definition technicalSolution_rules :: "rule list" where
  "technicalSolution_rules = [
    \<lparr>rule_id = utf16 ''technicalProblem'',
      rule_name = [0x6280, 0x672F, 0x95EE, 0x9898],
      rule_description = [0x8981, 0x89E3, 0x51B3, 0x7684, 0x6280, 0x672F, 0x95EE, 0x9898, 0x662F, 0x5426, 0x660E, 0x786E],
      check = (\<lambda>data. js_and (getProp data ''technicalProblem'') (trimLengthTest (getProp data ''technicalProblem'') (\<lambda>n. n \<ge> 20))),
      rule_severity = utf16 ''error'',
      rule_suggestion = [0x8BF7, 0x660E, 0x786E, 0x63CF, 0x8FF0, 0x8981, 0x89E3, 0x51B3, 0x7684, 0x6280, 0x672F, 0x95EE, 0x9898, 0xFF0C, 0x81F3, 0x5C11, 0x32, 0x30, 0x4E2A, 0x5B57, 0x7B26]\<rparr>,
    \<lparr>rule_id = utf16 ''technicalSolution'',
      rule_name = [0x6280, 0x672F, 0x65B9, 0x6848],
      rule_description = [0x6280, 0x672F, 0x65B9, 0x6848, 0x662F, 0x5426, 0x8BE6, 0x7EC6, 0x53EF, 0x884C],
      check = (\<lambda>data. js_and (getProp data ''technicalSolution'') (trimLengthTest (getProp data ''technicalSolution'') (\<lambda>n. n \<ge> 100))),
      rule_severity = utf16 ''error'',
      rule_suggestion = [0x6280, 0x672F, 0x65B9, 0x6848, 0x63CF, 0x8FF0, 0x5E94, 0x8BE6, 0x7EC6, 0x53EF, 0x884C, 0xFF0C, 0x81F3, 0x5C11, 0x31, 0x30, 0x30, 0x4E2A, 0x5B57, 0x7B26]\<rparr>,
    \<lparr>rule_id = utf16 ''keyFeatures'',
      rule_name = [0x5173, 0x952E, 0x6280, 0x672F, 0x7279, 0x5F81],
      rule_description = [0x662F, 0x5426, 0x5217, 0x51FA, 0x4E86, 0x5173, 0x952E, 0x6280, 0x672F, 0x7279, 0x5F81],
      check = (\<lambda>data. Inr (ifArray (getProp data ''keyFeatures'') (\<lambda>xs. JBool (length xs \<ge> 3)))),
      rule_severity = utf16 ''warning'',
      rule_suggestion = [0x5EFA, 0x8BAE, 0x5217, 0x51FA, 0x81F3, 0x5C11, 0x33, 0x4E2A, 0x5173, 0x952E, 0x6280, 0x672F, 0x7279, 0x5F81]\<rparr>]"

definition technicalEffects_rules :: "rule list" where
  "technicalEffects_rules = [
    \<lparr>rule_id = utf16 ''beneficialEffects'',
      rule_name = [0x6709, 0x76CA, 0x6548, 0x679C],
      rule_description = [0x662F, 0x5426, 0x8BF4, 0x660E, 0x4E86, 0x6709, 0x76CA, 0x6548, 0x679C],
      check = (\<lambda>data. js_and (getProp data ''beneficialEffects'') (trimLengthTest (getProp data ''beneficialEffects'') (\<lambda>n. n \<ge> 30))),
      rule_severity = utf16 ''error'',
      rule_suggestion = [0x8BF7, 0x8BE6, 0x7EC6, 0x63CF, 0x8FF0, 0x6709, 0x76CA, 0x6548, 0x679C, 0xFF0C, 0x81F3, 0x5C11, 0x33, 0x30, 0x4E2A, 0x5B57, 0x7B26]\<rparr>,
    \<lparr>rule_id = utf16 ''performanceData'',
      rule_name = [0x6027, 0x80FD, 0x6570, 0x636E],
      rule_description = [0x662F, 0x5426, 0x6709, 0x6027, 0x80FD, 0x6570, 0x636E, 0x652F, 0x6301],
      check = (\<lambda>data. js_and (getProp data ''performanceData'') (trimLengthTest (getProp data ''performanceData'') (\<lambda>n. n > 0))),
      rule_severity = utf16 ''info'',
      rule_suggestion = [0x5EFA, 0x8BAE, 0x63D0, 0x4F9B, 0x5177, 0x4F53, 0x7684, 0x6027, 0x80FD, 0x6570, 0x636E, 0x4EE5, 0x589E, 0x5F3A, 0x8BF4, 0x670D, 0x529B]\<rparr>]"

definition implementation_rules :: "rule list" where
  "implementation_rules = [
    \<lparr>rule_id = utf16 ''embodimentDescription'',
      rule_name = [0x5177, 0x4F53, 0x5B9E, 0x65BD, 0x65B9, 0x5F0F],
      rule_description = [0x5B9E, 0x65BD, 0x65B9, 0x5F0F, 0x662F, 0x5426, 0x63CF, 0x8FF0, 0x6E05, 0x695A],
      check = (\<lambda>data. js_and (getProp data ''embodimentDescription'') (trimLengthTest (getProp data ''embodimentDescription'') (\<lambda>n. n \<ge> 50))),
      rule_severity = utf16 ''warning'',
      rule_suggestion = [0x5177, 0x4F53, 0x5B9E, 0x65BD, 0x65B9, 0x5F0F, 0x5E94, 0x8BE6, 0x7EC6, 0x63CF, 0x8FF0, 0xFF0C, 0x81F3, 0x5C11, 0x35, 0x30, 0x4E2A, 0x5B57, 0x7B26]\<rparr>]"

definition initCheckRules :: "(string \<times> rule list) list" where
  "initCheckRules = [
     (''basicInfo'', basicInfo_rules),
     (''backgroundTech'', backgroundTech_rules),
     (''technicalSolution'', technicalSolution_rules),
     (''technicalEffects'', technicalEffects_rules),
     (''implementation'', implementation_rules)]"

section \<open>Evaluation\<close>

record checkResult =
  cr_id :: jsstring
  cr_name :: jsstring
  cr_description :: jsstring
  passed :: jsval
  cr_severity :: jsstring
  cr_suggestion :: jsstring

record categoryResult =
  cat_total :: nat
  cat_passed :: nat
  cat_errors :: "checkResult list"
  cat_warnings :: "checkResult list"
  cat_suggestions :: "checkResult list"

record checkReport =
  overall :: jsstring
  score :: int
  totalChecks :: nat
  passedChecks :: nat
  errors :: "checkResult list"
  warnings :: "checkResult list"
  suggestions :: "checkResult list"
  categories :: "(string \<times> categoryResult) list"

text \<open>\<^verbatim>\<open>Array.prototype.forEach\<close> with a callback that updates an accumulator and may
  throw: the first exception ends the loop.\<close>

fun forEach :: "('a \<Rightarrow> 's \<Rightarrow> error + 's) \<Rightarrow> 'a list \<Rightarrow> 's \<Rightarrow> error + 's" where
  "forEach f [] s = Inr s"
| "forEach f (x # xs) s = (case f x s of Inl e \<Rightarrow> Inl e | Inr s' \<Rightarrow> forEach f xs s')"

text \<open>The object built for one rule from the value \<open>isValid\<close> that its predicate returned.\<close>

definition mkCheckResult :: "rule \<Rightarrow> jsval \<Rightarrow> checkResult" where
  "mkCheckResult rule isValid =
     \<lparr>cr_id = rule_id rule,
      cr_name = rule_name rule,
      cr_description = rule_description rule,
      passed = isValid,
      cr_severity = rule_severity rule,
      cr_suggestion = rule_suggestion rule\<rparr>"

text \<open>The body of the loop of \<^verbatim>\<open>checkCategory\<close>.\<close>

definition checkRule :: "obj \<Rightarrow> rule \<Rightarrow> categoryResult \<Rightarrow> error + categoryResult" where
  "checkRule data rule result =
     (case check rule data of
        Inl e \<Rightarrow> Inl e
      | Inr isValid \<Rightarrow>
          (let checkResult = mkCheckResult rule isValid in
           Inr (if truthy isValid then result\<lparr>cat_passed := cat_passed result + 1\<rparr>
                else if rule_severity rule = utf16 ''error''
                  then result\<lparr>cat_errors := cat_errors result @ [checkResult]\<rparr>
                else if rule_severity rule = utf16 ''warning''
                  then result\<lparr>cat_warnings := cat_warnings result @ [checkResult]\<rparr>
                else result\<lparr>cat_suggestions := cat_suggestions result @ [checkResult]\<rparr>)))"

definition checkCategory :: "obj \<Rightarrow> rule list \<Rightarrow> error + categoryResult" where
  "checkCategory data rules =
     forEach (checkRule data) rules
       \<lparr>cat_total = length rules, cat_passed = 0,
        cat_errors = [], cat_warnings = [], cat_suggestions = []\<rparr>"

text \<open>Assignment \<^verbatim>\<open>o[k] = v\<close> on an object whose keys are kept in insertion order: an
  existing key keeps its place, a new one goes last.\<close>

fun setProp :: "string \<Rightarrow> 'v \<Rightarrow> (string \<times> 'v) list \<Rightarrow> (string \<times> 'v) list" where
  "setProp k v [] = [(k, v)]"
| "setProp k v ((k', v') # ps) = (if k = k' then (k, v) # ps else (k', v') # setProp k v ps)"

text \<open>\<^verbatim>\<open>Math.round\<close>: the nearest integer, a tie going towards \<open>+\<infinity>\<close>. The quotient of
  the two counters is taken exactly; the counters never exceed the number of rules, and
  no quotient \<open>100 * p / 11\<close> lies within double rounding error of a tie.\<close>

definition Math_round :: "rat \<Rightarrow> int" where
  "Math_round x = \<lfloor>x + 1 / 2\<rfloor>"

text \<open>The body of the loop over \<^verbatim>\<open>Object.keys(this.checkRules)\<close>, which visits the
  categories in insertion order and reads the rules of each.\<close>

definition checkDocumentStep ::
  "obj \<Rightarrow> string \<times> rule list \<Rightarrow> checkReport \<Rightarrow> error + checkReport" where
  "checkDocumentStep data entry results =
     (case checkCategory data (snd entry) of
        Inl e \<Rightarrow> Inl e
      | Inr categoryResults \<Rightarrow>
          Inr (results\<lparr>
            categories := setProp (fst entry) categoryResults (categories results),
            totalChecks := totalChecks results + cat_total categoryResults,
            passedChecks := passedChecks results + cat_passed categoryResults,
            errors := errors results @ cat_errors categoryResults,
            warnings := warnings results @ cat_warnings categoryResults,
            suggestions := suggestions results @ cat_suggestions categoryResults\<rparr>))"

definition finishReport :: "checkReport \<Rightarrow> checkReport" where
  "finishReport results =
     (let results = results\<lparr>score :=
            (if totalChecks results > 0
             then Math_round (of_nat (passedChecks results) / of_nat (totalChecks results) * 100)
             else 0)\<rparr>
      in if length (errors results) > 0 then results\<lparr>overall := utf16 ''fail''\<rparr>
         else if length (warnings results) > 0 then results\<lparr>overall := utf16 ''warning''\<rparr>
         else results\<lparr>overall := utf16 ''pass''\<rparr>)"

definition checkDocumentWith :: "(string \<times> rule list) list \<Rightarrow> obj \<Rightarrow> error + checkReport" where
  "checkDocumentWith checkRules data =
     (case forEach (checkDocumentStep data) checkRules
             \<lparr>overall = utf16 ''pass'', score = 0, totalChecks = 0, passedChecks = 0,
              errors = [], warnings = [], suggestions = [], categories = []\<rparr> of
        Inl e \<Rightarrow> Inl e
      | Inr results \<Rightarrow> Inr (finishReport results))"

text \<open>The constructor stores \<^verbatim>\<open>initCheckRules()\<close> in \<^verbatim>\<open>this.checkRules\<close>.\<close>

definition checkDocument :: "obj \<Rightarrow> error + checkReport" where
  "checkDocument data = checkDocumentWith initCheckRules data"

section \<open>Report rendering\<close>

text \<open>A template literal \<^verbatim>\<open>${n}\<close> prints a non-negative integer in decimal, and a negative
  one with a leading minus sign.\<close>

fun digitsOf :: "nat \<Rightarrow> jsstring" where
  "digitsOf n = (if n < 10 then [of_nat (48 + n)] else digitsOf (n div 10) @ [of_nat (48 + n mod 10)])"

definition toStringInt :: "int \<Rightarrow> jsstring" where
  "toStringInt i = (if i < 0 then 0x2D # digitsOf (nat (- i)) else digitsOf (nat i))"

text \<open>\<^verbatim>\<open>getStatusText\<close>: \<^verbatim>\<open>statusMap[status] || status\<close>. The three labels are a check mark
  and "passed", a warning sign and "has warnings", a cross and "not passed". Every label
  is non-empty, so the fallback is taken exactly for a key that is not in the literal
  (the properties an object literal inherits are not modelled; \<open>checkDocument\<close> stores
  one of the three keys).\<close>

definition statusMap :: "(jsstring \<times> jsstring) list" where
  "statusMap = [
     (utf16 ''pass'', [0x2705, 0x20, 0x901A, 0x8FC7]),
     (utf16 ''warning'', [0x26A0, 0xFE0F, 0x20, 0x6709, 0x8B66, 0x544A]),
     (utf16 ''fail'', [0x274C, 0x20, 0x672A, 0x901A, 0x8FC7])]"

definition getStatusText :: "jsstring \<Rightarrow> jsstring" where
  "getStatusText status = (case map_of statusMap status of Some t \<Rightarrow> t | None \<Rightarrow> status)"

text \<open>\<^verbatim>\<open>getCategoryName\<close>: \<^verbatim>\<open>nameMap[category] || category\<close>, with the Chinese names of
  the five categories.\<close>

definition nameMap :: "(string \<times> jsstring) list" where
  "nameMap = [
     (''basicInfo'', [0x57FA, 0x672C, 0x4FE1, 0x606F]),
     (''backgroundTech'', [0x80CC, 0x666F, 0x6280, 0x672F]),
     (''technicalSolution'', [0x6280, 0x672F, 0x65B9, 0x6848]),
     (''technicalEffects'', [0x6280, 0x672F, 0x6548, 0x679C]),
     (''implementation'', [0x5B9E, 0x65BD, 0x65B9, 0x5F0F])]"

definition getCategoryName :: "string \<Rightarrow> jsstring" where
  "getCategoryName category = (case map_of nameMap category of Some t \<Rightarrow> t | None \<Rightarrow> utf16 category)"

text \<open>The callback of the three \<^verbatim>\<open>forEach\<close> loops over the errors, the warnings and the
  suggestions, which have the same body:
  \<^verbatim>\<open>report += `- **${x.name}**: ${x.suggestion}\n`\<close>.\<close>

definition reportItem :: "checkResult \<Rightarrow> jsstring \<Rightarrow> jsstring" where
  "reportItem x report =
     report @ [0x2D, 0x20, 0x2A, 0x2A] @ cr_name x @ [0x2A, 0x2A, 0x3A, 0x20] @ cr_suggestion x @ [0xA]"

text \<open>The callback of the loop over \<^verbatim>\<open>Object.keys(checkResults.categories)\<close>.\<close>

definition reportCategory :: "string \<times> categoryResult \<Rightarrow> jsstring \<Rightarrow> jsstring" where
  "reportCategory entry report =
     (let category = fst entry; categoryResult = snd entry;
          report = report @ [0x23, 0x23, 0x23, 0x20] @ getCategoryName category @ [0xA, 0xA];
          report = report @ [0x2D, 0x20, 0x901A, 0x8FC7, 0x3A, 0x20] @ digitsOf (cat_passed categoryResult)
                     @ [0x2F] @ digitsOf (cat_total categoryResult) @ [0xA];
          report = (if length (cat_errors categoryResult) > 0
                    then report @ [0x2D, 0x20, 0x9519, 0x8BEF, 0x3A, 0x20]
                           @ digitsOf (length (cat_errors categoryResult)) @ [0xA]
                    else report);
          report = (if length (cat_warnings categoryResult) > 0
                    then report @ [0x2D, 0x20, 0x8B66, 0x544A, 0x3A, 0x20]
                           @ digitsOf (length (cat_warnings categoryResult)) @ [0xA]
                    else report);
          report = (if length (cat_suggestions categoryResult) > 0
                    then report @ [0x2D, 0x20, 0x5EFA, 0x8BAE, 0x3A, 0x20]
                           @ digitsOf (length (cat_suggestions categoryResult)) @ [0xA]
                    else report)
      in report @ [0xA])"

text \<open>\<^verbatim>\<open>generateReport\<close>. The literals are, in order: the title line "quality check
  report"; the heading "overall assessment"; the lines "total score: s/100", "status: t"
  and "checks: p/t passed"; the headings "errors (n)", "warnings (n)" and "suggestions (n)",
  each with its introductory sentence; and the heading "category details".\<close>

definition generateReport :: "checkReport \<Rightarrow> jsstring" where
  "generateReport checkResults =
     (let report = [0x23, 0x20, 0x8D28, 0x91CF, 0x68C0, 0x67E5, 0x62A5, 0x544A, 0xA, 0xA];
          report = report @ [0x23, 0x23, 0x20, 0x603B, 0x4F53, 0x8BC4, 0x4F30, 0xA, 0xA];
          report = report @ [0x2D, 0x20, 0x2A, 0x2A, 0x603B, 0x5206, 0x2A, 0x2A, 0x3A, 0x20]
                     @ toStringInt (score checkResults) @ [0x2F, 0x31, 0x30, 0x30, 0xA];
          report = report @ [0x2D, 0x20, 0x2A, 0x2A, 0x72B6, 0x6001, 0x2A, 0x2A, 0x3A, 0x20]
                     @ getStatusText (overall checkResults) @ [0xA];
          report = report @ [0x2D, 0x20, 0x2A, 0x2A, 0x68C0, 0x67E5, 0x9879, 0x76EE, 0x2A, 0x2A, 0x3A, 0x20]
                     @ digitsOf (passedChecks checkResults) @ [0x2F]
                     @ digitsOf (totalChecks checkResults) @ [0x20, 0x901A, 0x8FC7, 0xA, 0xA];
          report = (if length (errors checkResults) > 0
                    then (let report = report @ [0x23, 0x23, 0x20, 0x274C, 0x20, 0x9519, 0x8BEF, 0x20, 0x28]
                                         @ digitsOf (length (errors checkResults)) @ [0x29, 0xA, 0xA];
                              report = report @ [0x4EE5, 0x4E0B, 0x95EE, 0x9898, 0x9700, 0x8981, 0x7ACB,
                                                 0x5373, 0x4FEE, 0x590D, 0xFF1A, 0xA, 0xA];
                              report = fold reportItem (errors checkResults) report
                          in report @ [0xA])
                    else report);
          report = (if length (warnings checkResults) > 0
                    then (let report = report @ [0x23, 0x23, 0x20, 0x26A0, 0xFE0F, 0x20, 0x8B66, 0x544A, 0x20, 0x28]
                                         @ digitsOf (length (warnings checkResults)) @ [0x29, 0xA, 0xA];
                              report = report @ [0x4EE5, 0x4E0B, 0x95EE, 0x9898, 0x5EFA, 0x8BAE, 0x4FEE,
                                                 0x590D, 0xFF1A, 0xA, 0xA];
                              report = fold reportItem (warnings checkResults) report
                          in report @ [0xA])
                    else report);
          report = (if length (suggestions checkResults) > 0
                    then (let report = report @ [0x23, 0x23, 0x20, 0xD83D, 0xDCA1, 0x20, 0x5EFA, 0x8BAE, 0x20, 0x28]
                                         @ digitsOf (length (suggestions checkResults)) @ [0x29, 0xA, 0xA];
                              report = report @ [0x4EE5, 0x4E0B, 0x6539, 0x8FDB, 0x5EFA, 0x8BAE, 0x4F9B,
                                                 0x53C2, 0x8003, 0xFF1A, 0xA, 0xA];
                              report = fold reportItem (suggestions checkResults) report
                          in report @ [0xA])
                    else report);
          report = report @ [0x23, 0x23, 0x20, 0x5206, 0x7C7B, 0x8BE6, 0x60C5, 0xA, 0xA]
      in fold reportCategory (categories checkResults) report)"

section \<open>Auto-fix suggestions\<close>

text \<open>
  \<^verbatim>\<open>getAutoFixSuggestions\<close> reads the wall clock and the random number generator. Both are
  part of the state the function runs in, next to the caller's record: \<open>clock\<close> and
  \<open>random\<close> give the value of each successive \<^verbatim>\<open>new Date()\<close> and \<^verbatim>\<open>Math.random()\<close>, and
  \<open>ticks\<close> and \<open>draws\<close> count the readings taken so far. Of a date the function uses
  \<^verbatim>\<open>toLocaleDateString()\<close>, whose format depends on the host's locale, and
  \<^verbatim>\<open>getFullYear()\<close>.
\<close>

text \<open>
  \<^verbatim>\<open>Math.random() * 1000\<close> is a product of IEEE 754 doubles: the exact product, rounded to
  the nearest double, a tie going to the double with the even significand. A double is
  kept as the rational it denotes. The doubles around a number \<open>x\<close> are the multiples of
  \<open>2 powi (e - 52)\<close>, where \<open>2 powi e\<close> is the largest power of two that is at most
  \<open>\<bar>x\<bar>\<close> and \<open>e\<close> is not taken below \<open>-1022\<close> (the subnormal numbers have the spacing of the
  smallest normal ones). \<open>binade s x\<close> looks for that exponent from \<open>s\<close> downwards;
  \<open>1023\<close> is the largest exponent of a double. Overflow to infinity (from \<open>2 powi 1024\<close> on)
  is not modelled: the only product here is one of a number below 1 with 1000.
\<close>

function binade :: "int \<Rightarrow> rat \<Rightarrow> int" where
  "binade e x = (if e \<le> - 1022 \<or> 2 powi e \<le> x then e else binade (e - 1) x)"
  by pat_completeness auto
termination
  by (relation "measure (\<lambda>(e, x). nat (e + 1022))") auto

declare binade.simps [simp del]

text \<open>Rounding to the nearest integer, a tie going to the even one.\<close>

definition roundEven :: "rat \<Rightarrow> int" where
  "roundEven q =
     (let n = \<lfloor>q\<rfloor> in
      if q - of_int n < 1 / 2 then n
      else if 1 / 2 < q - of_int n then n + 1
      else if even n then n else n + 1)"

definition roundDouble :: "rat \<Rightarrow> rat" where
  "roundDouble x =
     (let u = 2 powi (binade 1023 \<bar>x\<bar> - 52) in of_int (roundEven (x / u)) * u)"

text \<open>The operator \<^verbatim>\<open>*\<close> on two doubles.\<close>

definition timesDouble :: "rat \<Rightarrow> rat \<Rightarrow> rat" where
  "timesDouble a b = roundDouble (a * b)"









section \<open>Notions used to state the properties\<close>

text \<open>All eleven rules, category by category.\<close>

definition allRules :: "rule list" where
  "allRules = concat (map snd initCheckRules)"

text \<open>A rule passes on a record when its predicate returns a truthy value, and fails when
  it returns a falsy one; a predicate that throws does neither.\<close>

definition rulePasses :: "obj \<Rightarrow> rule \<Rightarrow> bool" where
  "rulePasses data rule = (case check rule data of Inl e \<Rightarrow> False | Inr v \<Rightarrow> truthy v)"

definition ruleFails :: "obj \<Rightarrow> rule \<Rightarrow> bool" where
  "ruleFails data rule = (case check rule data of Inl e \<Rightarrow> False | Inr v \<Rightarrow> \<not> truthy v)"

text \<open>The result object that \<open>checkRule\<close> builds for a rule whose predicate returns.\<close>

definition resultOf :: "obj \<Rightarrow> rule \<Rightarrow> checkResult" where
  "resultOf data rule =
     mkCheckResult rule (case check rule data of Inl e \<Rightarrow> JUndefined | Inr v \<Rightarrow> v)"

text \<open>A well-formed document record: each of the ten text fields is absent or a string.
  Nothing is asked of \<^verbatim>\<open>keyFeatures\<close> or of any other property.\<close>

definition stringFields :: "string list" where
  "stringFields = [''title'', ''technicalField'', ''inventor'', ''backgroundTechnology'',
     ''currentProblems'', ''technicalProblem'', ''technicalSolution'', ''beneficialEffects'',
     ''performanceData'', ''embodimentDescription'']"

definition stringOrAbsent :: "jsval \<Rightarrow> bool" where
  "stringOrAbsent v = (case v of JUndefined \<Rightarrow> True | JStr s \<Rightarrow> True | _ \<Rightarrow> False)"

definition wellFormed :: "obj \<Rightarrow> bool" where
  "wellFormed data = list_all (\<lambda>f. stringOrAbsent (getProp data f)) stringFields"

definition isBoolean :: "jsval \<Rightarrow> bool" where
  "isBoolean v = (case v of JBool b \<Rightarrow> True | _ \<Rightarrow> False)"

text \<open>The number of Unicode code points of a UTF-16 string: a high surrogate followed by a
  low surrogate is one code point, every other code unit is one by itself.\<close>

definition isHighSurrogate :: "16 word \<Rightarrow> bool" where
  "isHighSurrogate c = (0xD800 \<le> c \<and> c \<le> 0xDBFF)"

definition isLowSurrogate :: "16 word \<Rightarrow> bool" where
  "isLowSurrogate c = (0xDC00 \<le> c \<and> c \<le> 0xDFFF)"

fun codePoints :: "jsstring \<Rightarrow> nat" where
  "codePoints [] = 0"
| "codePoints [c] = 1"
| "codePoints (c # d # s) =
     (if isHighSurrogate c \<and> isLowSurrogate d then 1 + codePoints s else 1 + codePoints (d # s))"

text \<open>The table of the specification: the text rules with the least trimmed length each
  asks for ("non-empty" is a length of at least one).\<close>

definition minLengthRules :: "(string \<times> nat) list" where
  "minLengthRules = [(''title'', 1), (''technicalField'', 10), (''inventor'', 1),
     (''backgroundTechnology'', 50), (''currentProblems'', 30), (''technicalProblem'', 20),
     (''technicalSolution'', 100), (''beneficialEffects'', 30), (''performanceData'', 1),
     (''embodimentDescription'', 50)]"

definition findRule :: "string \<Rightarrow> rule option" where
  "findRule f = find (\<lambda>r. rule_id r = utf16 f) allRules"

text \<open>Rounding to the nearest integer, a tie going away from zero.\<close>

definition roundHalfAway :: "rat \<Rightarrow> int" where
  "roundHalfAway x = (if x < 0 then - \<lfloor>- x + 1 / 2\<rfloor> else \<lfloor>x + 1 / 2\<rfloor>)"

text \<open>A new value of a field improves on the old one when it is a string whose trimmed
  text is at least as long, or a list with at least as many elements; any string or list
  improves on an absent field.\<close>

fun improves :: "jsval \<Rightarrow> jsval \<Rightarrow> bool" where
  "improves (JStr s) (JStr s') = (length (trim s) \<le> length (trim s'))"
| "improves (JArr xs) (JArr ys) = (length xs \<le> length ys)"
| "improves JUndefined (JStr s') = True"
| "improves JUndefined (JArr ys) = True"
| "improves v v' = False"

text \<open>The blocks of a rendered report.\<close>

definition overallBlock :: "checkReport \<Rightarrow> jsstring" where
  "overallBlock r =
     [0x23, 0x20, 0x8D28, 0x91CF, 0x68C0, 0x67E5, 0x62A5, 0x544A, 0xA, 0xA]
     @ [0x23, 0x23, 0x20, 0x603B, 0x4F53, 0x8BC4, 0x4F30, 0xA, 0xA]
     @ [0x2D, 0x20, 0x2A, 0x2A, 0x603B, 0x5206, 0x2A, 0x2A, 0x3A, 0x20]
     @ toStringInt (score r) @ [0x2F, 0x31, 0x30, 0x30, 0xA]
     @ [0x2D, 0x20, 0x2A, 0x2A, 0x72B6, 0x6001, 0x2A, 0x2A, 0x3A, 0x20]
     @ getStatusText (overall r) @ [0xA]
     @ [0x2D, 0x20, 0x2A, 0x2A, 0x68C0, 0x67E5, 0x9879, 0x76EE, 0x2A, 0x2A, 0x3A, 0x20]
     @ digitsOf (passedChecks r) @ [0x2F] @ digitsOf (totalChecks r) @ [0x20, 0x901A, 0x8FC7, 0xA, 0xA]"

definition itemLine :: "checkResult \<Rightarrow> jsstring" where
  "itemLine x = [0x2D, 0x20, 0x2A, 0x2A] @ cr_name x @ [0x2A, 0x2A, 0x3A, 0x20] @ cr_suggestion x @ [0xA]"

definition reportSection :: "jsstring \<Rightarrow> jsstring \<Rightarrow> checkResult list \<Rightarrow> jsstring" where
  "reportSection heading intro xs =
     heading @ digitsOf (length xs) @ [0x29, 0xA, 0xA] @ intro @ concat (map itemLine xs) @ [0xA]"

definition errorsSection :: "checkResult list \<Rightarrow> jsstring" where
  "errorsSection xs = reportSection [0x23, 0x23, 0x20, 0x274C, 0x20, 0x9519, 0x8BEF, 0x20, 0x28]
     [0x4EE5, 0x4E0B, 0x95EE, 0x9898, 0x9700, 0x8981, 0x7ACB, 0x5373, 0x4FEE, 0x590D, 0xFF1A, 0xA, 0xA] xs"

definition warningsSection :: "checkResult list \<Rightarrow> jsstring" where
  "warningsSection xs = reportSection [0x23, 0x23, 0x20, 0x26A0, 0xFE0F, 0x20, 0x8B66, 0x544A, 0x20, 0x28]
     [0x4EE5, 0x4E0B, 0x95EE, 0x9898, 0x5EFA, 0x8BAE, 0x4FEE, 0x590D, 0xFF1A, 0xA, 0xA] xs"

definition suggestionsSection :: "checkResult list \<Rightarrow> jsstring" where
  "suggestionsSection xs = reportSection [0x23, 0x23, 0x20, 0xD83D, 0xDCA1, 0x20, 0x5EFA, 0x8BAE, 0x20, 0x28]
     [0x4EE5, 0x4E0B, 0x6539, 0x8FDB, 0x5EFA, 0x8BAE, 0x4F9B, 0x53C2, 0x8003, 0xFF1A, 0xA, 0xA] xs"

definition countLine :: "jsstring \<Rightarrow> nat \<Rightarrow> jsstring" where
  "countLine label n = label @ digitsOf n @ [0xA]"

definition categoryBlock :: "string \<times> categoryResult \<Rightarrow> jsstring" where
  "categoryBlock entry =
     [0x23, 0x23, 0x23, 0x20] @ getCategoryName (fst entry) @ [0xA, 0xA]
     @ [0x2D, 0x20, 0x901A, 0x8FC7, 0x3A, 0x20] @ digitsOf (cat_passed (snd entry))
     @ [0x2F] @ digitsOf (cat_total (snd entry)) @ [0xA]
     @ (if cat_errors (snd entry) = [] then []
        else countLine [0x2D, 0x20, 0x9519, 0x8BEF, 0x3A, 0x20] (length (cat_errors (snd entry))))
     @ (if cat_warnings (snd entry) = [] then []
        else countLine [0x2D, 0x20, 0x8B66, 0x544A, 0x3A, 0x20] (length (cat_warnings (snd entry))))
     @ (if cat_suggestions (snd entry) = [] then []
        else countLine [0x2D, 0x20, 0x5EFA, 0x8BAE, 0x3A, 0x20] (length (cat_suggestions (snd entry))))
     @ [0xA]"

definition detailsBlock :: "(string \<times> categoryResult) list \<Rightarrow> jsstring" where
  "detailsBlock cs = [0x23, 0x23, 0x20, 0x5206, 0x7C7B, 0x8BE6, 0x60C5, 0xA, 0xA] @ concat (map categoryBlock cs)"

text \<open>What the specification says a category's result and the report's lists hold: the
  results of the failing rules of one severity class, in rule order, and the number of
  passing rules.\<close>

definition isError :: "jsstring \<Rightarrow> bool" where
  "isError s = (s = utf16 ''error'')"

definition isWarning :: "jsstring \<Rightarrow> bool" where
  "isWarning s = (s = utf16 ''warning'')"

definition isOther :: "jsstring \<Rightarrow> bool" where
  "isOther s = (s \<noteq> utf16 ''error'' \<and> s \<noteq> utf16 ''warning'')"

definition failedResults :: "obj \<Rightarrow> (jsstring \<Rightarrow> bool) \<Rightarrow> rule list \<Rightarrow> checkResult list" where
  "failedResults data sev rules =
     map (resultOf data) (filter (\<lambda>r. ruleFails data r \<and> sev (rule_severity r)) rules)"

definition expectedCategory :: "obj \<Rightarrow> rule list \<Rightarrow> categoryResult" where
  "expectedCategory data rules =
     \<lparr>cat_total = length rules,
      cat_passed = length (filter (rulePasses data) rules),
      cat_errors = failedResults data isError rules,
      cat_warnings = failedResults data isWarning rules,
      cat_suggestions = failedResults data isOther rules\<rparr>"

text \<open>The two shapes of predicate in the registry: ten rules test the trimmed length of a
  text field, one tests the length of the list \<^verbatim>\<open>keyFeatures\<close>.\<close>

definition textCheck :: "string \<Rightarrow> (nat \<Rightarrow> bool) \<Rightarrow> obj \<Rightarrow> error + jsval" where
  "textCheck f p = (\<lambda>data. js_and (getProp data f) (trimLengthTest (getProp data f) p))"

definition listCheck :: "obj \<Rightarrow> error + jsval" where
  "listCheck = (\<lambda>data. Inr (ifArray (getProp data ''keyFeatures'') (\<lambda>xs. JBool (3 \<le> length xs))))"

text \<open>The \<^verbatim>\<open>passed\<close> fields of all results listed in a report.\<close>

definition passedValues :: "error + checkReport \<Rightarrow> jsval list" where
  "passedValues res =
     (case res of Inl e \<Rightarrow> [] | Inr r \<Rightarrow> map passed (errors r @ warnings r @ suggestions r))"





text \<open>A number that is a double: rounding leaves it as it is.\<close>

definition isDouble :: "rat \<Rightarrow> bool" where
  "isDouble x = (roundDouble x = x)"



section \<open>Example records\<close>

text \<open>A record that satisfies the six error rules and nothing else, and one that
  satisfies all eleven rules.\<close>

definition scenarioC :: obj where
  "scenarioC = [
     ''title'' \<mapsto> JStr (utf16 ''Widget''),
     ''inventor'' \<mapsto> JStr (utf16 ''Jane Doe''),
     ''currentProblems'' \<mapsto> JStr (replicate 30 0x61),
     ''technicalProblem'' \<mapsto> JStr (replicate 20 0x61),
     ''technicalSolution'' \<mapsto> JStr (replicate 100 0x61),
     ''beneficialEffects'' \<mapsto> JStr (replicate 30 0x61)]"

definition scenarioB :: obj where
  "scenarioB = scenarioC(
     ''technicalField'' \<mapsto> JStr (replicate 10 0x61),
     ''backgroundTechnology'' \<mapsto> JStr (replicate 50 0x61),
     ''keyFeatures'' \<mapsto> JArr [JStr (utf16 ''a''), JStr (utf16 ''b''), JStr (utf16 ''c'')],
     ''performanceData'' \<mapsto> JStr (utf16 ''fast''),
     ''embodimentDescription'' \<mapsto> JStr (replicate 50 0x61))"

text \<open>A record whose \<^verbatim>\<open>keyFeatures\<close> is a number instead of a list.\<close>

definition featuresNotAList :: obj where
  "featuresNotAList = scenarioC(''keyFeatures'' \<mapsto> JNum (Finite 7))"

text \<open>A text of eight letters and one character outside the Basic Multilingual Plane
  (U+1F4A1, a surrogate pair): nine code points, ten code units.\<close>

definition astralText :: jsstring where
  "astralText = [0x61, 0x61, 0x61, 0x61, 0x61, 0x61, 0x61, 0x61, 0xD83D, 0xDCA1]"

definition astralRecord :: obj where
  "astralRecord = [''technicalField'' \<mapsto> JStr astralText]"

text \<open>The records of the example "lengthening \<^verbatim>\<open>backgroundTechnology\<close>".\<close>

definition background10 :: obj where
  "background10 = scenarioC(''backgroundTechnology'' \<mapsto> JStr (replicate 10 0x61))"

definition background50 :: obj where
  "background50 = scenarioC(''backgroundTechnology'' \<mapsto> JStr (replicate 50 0x61))"

definition background60 :: obj where
  "background60 = background50(''backgroundTechnology'' \<mapsto> JStr (replicate 60 0x61))"

text \<open>The text of the report of a record that satisfies every rule: the title, the
  overall assessment with 100/100, the label of \<^verbatim>\<open>pass\<close> and 11/11, then the heading of the
  details and five categories with 3/3, 2/2, 3/3, 2/2 and 1/1.\<close>

definition allPassedText :: jsstring where
  "allPassedText =
     [0x23, 0x20, 0x8D28, 0x91CF, 0x68C0, 0x67E5, 0x62A5, 0x544A, 0xA, 0xA, 0x23, 0x23,
      0x20, 0x603B, 0x4F53, 0x8BC4, 0x4F30, 0xA, 0xA, 0x2D, 0x20, 0x2A, 0x2A, 0x603B,
      0x5206, 0x2A, 0x2A, 0x3A, 0x20, 0x31, 0x30, 0x30, 0x2F, 0x31, 0x30, 0x30, 0xA, 0x2D,
      0x20, 0x2A, 0x2A, 0x72B6, 0x6001, 0x2A, 0x2A, 0x3A, 0x20, 0x2705, 0x20, 0x901A,
      0x8FC7, 0xA, 0x2D, 0x20, 0x2A, 0x2A, 0x68C0, 0x67E5, 0x9879, 0x76EE, 0x2A, 0x2A,
      0x3A, 0x20, 0x31, 0x31, 0x2F, 0x31, 0x31, 0x20, 0x901A, 0x8FC7, 0xA, 0xA, 0x23,
      0x23, 0x20, 0x5206, 0x7C7B, 0x8BE6, 0x60C5, 0xA, 0xA, 0x23, 0x23, 0x23, 0x20,
      0x57FA, 0x672C, 0x4FE1, 0x606F, 0xA, 0xA, 0x2D, 0x20, 0x901A, 0x8FC7, 0x3A, 0x20,
      0x33, 0x2F, 0x33, 0xA, 0xA, 0x23, 0x23, 0x23, 0x20, 0x80CC, 0x666F, 0x6280, 0x672F,
      0xA, 0xA, 0x2D, 0x20, 0x901A, 0x8FC7, 0x3A, 0x20, 0x32, 0x2F, 0x32, 0xA, 0xA, 0x23,
      0x23, 0x23, 0x20, 0x6280, 0x672F, 0x65B9, 0x6848, 0xA, 0xA, 0x2D, 0x20, 0x901A,
      0x8FC7, 0x3A, 0x20, 0x33, 0x2F, 0x33, 0xA, 0xA, 0x23, 0x23, 0x23, 0x20, 0x6280,
      0x672F, 0x6548, 0x679C, 0xA, 0xA, 0x2D, 0x20, 0x901A, 0x8FC7, 0x3A, 0x20, 0x32,
      0x2F, 0x32, 0xA, 0xA, 0x23, 0x23, 0x23, 0x20, 0x5B9E, 0x65BD, 0x65B9, 0x5F0F, 0xA,
      0xA, 0x2D, 0x20, 0x901A, 0x8FC7, 0x3A, 0x20, 0x31, 0x2F, 0x31, 0xA, 0xA]"




text \<open>The double nearest to 0.123, which is a little below it.\<close>

definition double_0_123 :: rat where
  "double_0_123 = 553942754166571 / 4503599627370496"

text \<open>A record whose \<^verbatim>\<open>technicalField\<close> is ten letters, and the same record with that field
  changed to nine letters followed by two spaces, which is one code unit longer.\<close>

definition tenLetters :: jsstring where
  "tenLetters = [0x61, 0x61, 0x61, 0x61, 0x61, 0x61, 0x61, 0x61, 0x61, 0x61]"

definition nineLettersPadded :: jsstring where
  "nineLettersPadded = [0x61, 0x61, 0x61, 0x61, 0x61, 0x61, 0x61, 0x61, 0x61, 0x20, 0x20]"

definition fieldOfTen :: obj where
  "fieldOfTen = [''technicalField'' \<mapsto> JStr tenLetters]"

definition fieldPadded :: obj where
  "fieldPadded = fieldOfTen(''technicalField'' \<mapsto> JStr nineLettersPadded)"

section \<open>Basic facts\<close>

lemma of_char_less: "(of_char c :: nat) < 256"
  by (metis of_char_mod_256 mod_less_divisor zero_less_numeral)

lemma of_char_less16: "(of_char c :: nat) < 2 ^ 16"
  using of_char_less [of c] by (rule order.strict_trans) simp

lemma utf16_inj: "utf16 a = utf16 b \<longleftrightarrow> a = b"
proof -
  have "inj (\<lambda>c::char. (of_nat (of_char c) :: 16 word))"
  proof (rule injI)
    fix x y :: char
    assume h: "(of_nat (of_char x) :: 16 word) = of_nat (of_char y)"
    have "(of_char x :: nat) < 2 ^ 16" and "(of_char y :: nat) < 2 ^ 16"
      by (rule of_char_less16)+
    then have "(of_char x :: nat) = of_char y"
      using h by (simp add: word_of_nat_eq_iff take_bit_nat_eq_self)
    then show "x = y" by simp
  qed
  then show ?thesis
    unfolding utf16_def by (simp add: inj_map_eq_map)
qed

lemma Math_round_ratio:
  assumes "t > 0"
  shows "Math_round (of_nat p / of_nat t * 100) = (200 * int p + int t) div (2 * int t)"
proof -
  have "(of_nat p / of_nat t * 100 + 1 / 2 :: rat) = of_int (200 * int p + int t) / of_int (2 * int t)"
    using assms by (simp add: field_simps)
  then show ?thesis
    unfolding Math_round_def by (simp only: floor_divide_of_int_eq)
qed

lemma Math_round_ratio':
  "t > 0 \<Longrightarrow> Math_round (of_nat p * 100 / of_nat t) = (200 * int p + int t) div (2 * int t)"
  using Math_round_ratio [of t p] by simp

lemma finishReport_score:
  "score (finishReport r) =
     (if totalChecks r > 0
      then (200 * int (passedChecks r) + int (totalChecks r)) div (2 * int (totalChecks r)) else 0)"
  by (auto simp add: finishReport_def Let_def Math_round_ratio')

lemma finishReport_overall:
  "overall (finishReport r) =
     (if errors r \<noteq> [] then utf16 ''fail''
      else if warnings r \<noteq> [] then utf16 ''warning'' else utf16 ''pass'')"
  by (simp add: finishReport_def Let_def)

lemma finishReport_fields:
  "totalChecks (finishReport r) = totalChecks r"
  "passedChecks (finishReport r) = passedChecks r"
  "errors (finishReport r) = errors r"
  "warnings (finishReport r) = warnings r"
  "suggestions (finishReport r) = suggestions r"
  "categories (finishReport r) = categories r"
  by (simp_all add: finishReport_def Let_def)

lemmas registry_defs = initCheckRules_def basicInfo_rules_def backgroundTech_rules_def
  technicalSolution_rules_def technicalEffects_rules_def implementation_rules_def

lemmas engine_defs = checkDocument_def checkDocumentWith_def checkDocumentStep_def
  checkCategory_def checkRule_def mkCheckResult_def js_and_def getProp_def ifArray_def

section \<open>What the loops compute\<close>

lemma forEach_checkRule:
  "forEach (checkRule data) rules res0 = Inr res \<Longrightarrow>
     cat_total res = cat_total res0 \<and>
     cat_passed res = cat_passed res0 + length (filter (rulePasses data) rules) \<and>
     cat_errors res = cat_errors res0 @ failedResults data isError rules \<and>
     cat_warnings res = cat_warnings res0 @ failedResults data isWarning rules \<and>
     cat_suggestions res = cat_suggestions res0 @ failedResults data isOther rules"
proof (induction rules arbitrary: res0)
  case Nil
  then show ?case by (simp add: failedResults_def)
next
  case (Cons r rules)
  from Cons.prems obtain v where v: "check r data = Inr v"
    by (cases "check r data") (simp_all add: checkRule_def)
  from Cons.prems obtain res1 where
    step: "checkRule data r res0 = Inr res1" and rest: "forEach (checkRule data) rules res1 = Inr res"
    by (cases "checkRule data r res0") simp_all
  note ih = Cons.IH [OF rest]
  have pf: "rulePasses data r = truthy v" "ruleFails data r = (\<not> truthy v)"
    "resultOf data r = mkCheckResult r v"
    using v by (simp_all add: rulePasses_def ruleFails_def resultOf_def)
  show ?case
  proof (cases "truthy v")
    case True
    then have "res1 = res0\<lparr>cat_passed := cat_passed res0 + 1\<rparr>"
      using step v by (simp add: checkRule_def)
    then show ?thesis using ih True pf by (simp add: failedResults_def)
  next
    case False
    then have "res1 =
       (if rule_severity r = utf16 ''error''
          then res0\<lparr>cat_errors := cat_errors res0 @ [mkCheckResult r v]\<rparr>
        else if rule_severity r = utf16 ''warning''
          then res0\<lparr>cat_warnings := cat_warnings res0 @ [mkCheckResult r v]\<rparr>
        else res0\<lparr>cat_suggestions := cat_suggestions res0 @ [mkCheckResult r v]\<rparr>)"
      using step v by (auto simp add: checkRule_def Let_def utf16_inj)
    then show ?thesis using ih False pf
      by (auto simp add: failedResults_def isError_def isWarning_def isOther_def utf16_inj)
  qed
qed

lemma checkCategory_expected:
  assumes "checkCategory data rules = Inr res"
  shows "res = expectedCategory data rules"
  using forEach_checkRule [OF assms [unfolded checkCategory_def]]
  by (simp add: expectedCategory_def)

lemma forEach_checkRule_total:
  "(\<And>r. r \<in> set rules \<Longrightarrow> \<exists>v. check r data = Inr v) \<Longrightarrow>
     \<exists>res. forEach (checkRule data) rules res0 = Inr res"
proof (induction rules arbitrary: res0)
  case Nil
  show ?case by simp
next
  case (Cons r rules)
  from Cons.prems [of r] obtain v where v: "check r data = Inr v" by auto
  then obtain res1 where "checkRule data r res0 = Inr res1"
    by (simp add: checkRule_def Let_def)
  moreover have "\<exists>res. forEach (checkRule data) rules res1 = Inr res"
    by (rule Cons.IH) (simp add: Cons.prems)
  ultimately show ?case by simp
qed

lemma checkCategory_total:
  "(\<And>r. r \<in> set rules \<Longrightarrow> \<exists>v. check r data = Inr v) \<Longrightarrow>
     checkCategory data rules = Inr (expectedCategory data rules)"
proof -
  assume h: "\<And>r. r \<in> set rules \<Longrightarrow> \<exists>v. check r data = Inr v"
  from forEach_checkRule_total [of rules data, OF h] obtain res where
    "checkCategory data rules = Inr res" unfolding checkCategory_def by blast
  then show ?thesis using checkCategory_expected by simp
qed

lemma checkCategory_Inr_checks:
  "forEach (checkRule data) rules res0 = Inr res \<Longrightarrow> r \<in> set rules \<Longrightarrow> \<exists>v. check r data = Inr v"
proof (induction rules arbitrary: res0)
  case Nil
  then show ?case by simp
next
  case (Cons a rules)
  from Cons.prems(1) obtain res1 where
    step: "checkRule data a res0 = Inr res1" and rest: "forEach (checkRule data) rules res1 = Inr res"
    by (cases "checkRule data a res0") simp_all
  from step obtain v where "check a data = Inr v"
    by (cases "check a data") (simp_all add: checkRule_def)
  then show ?case using Cons.IH [OF rest] Cons.prems(2) by auto
qed

lemma setProp_fresh: "k \<notin> fst ` set ps \<Longrightarrow> setProp k v ps = ps @ [(k, v)]"
  by (induction ps) auto

lemma failedResults_append:
  "failedResults data sev (xs @ ys) = failedResults data sev xs @ failedResults data sev ys"
  by (simp add: failedResults_def)

lemma forEach_checkDocumentStep:
  "forEach (checkDocumentStep data) cats rep0 = Inr rep \<Longrightarrow>
   distinct (map fst cats) \<Longrightarrow> fst ` set (categories rep0) \<inter> fst ` set cats = {} \<Longrightarrow>
     overall rep = overall rep0 \<and> score rep = score rep0 \<and>
     totalChecks rep = totalChecks rep0 + length (concat (map snd cats)) \<and>
     passedChecks rep = passedChecks rep0 + length (filter (rulePasses data) (concat (map snd cats))) \<and>
     errors rep = errors rep0 @ failedResults data isError (concat (map snd cats)) \<and>
     warnings rep = warnings rep0 @ failedResults data isWarning (concat (map snd cats)) \<and>
     suggestions rep = suggestions rep0 @ failedResults data isOther (concat (map snd cats)) \<and>
     categories rep = categories rep0 @ map (\<lambda>e. (fst e, expectedCategory data (snd e))) cats"
proof (induction cats arbitrary: rep0)
  case Nil
  then show ?case by (simp add: failedResults_def)
next
  case (Cons c cats)
  from Cons.prems(1) obtain rep1 where
    step: "checkDocumentStep data c rep0 = Inr rep1" and
    rest: "forEach (checkDocumentStep data) cats rep1 = Inr rep"
    by (cases "checkDocumentStep data c rep0") simp_all
  from step obtain res where res: "checkCategory data (snd c) = Inr res"
    by (cases "checkCategory data (snd c)") (simp_all add: checkDocumentStep_def)
  have res_eq: "res = expectedCategory data (snd c)"
    using res by (rule checkCategory_expected)
  have fresh: "fst c \<notin> fst ` set (categories rep0)"
    using Cons.prems(3) by auto
  have rep1: "rep1 = rep0\<lparr>
      categories := categories rep0 @ [(fst c, res)],
      totalChecks := totalChecks rep0 + cat_total res,
      passedChecks := passedChecks rep0 + cat_passed res,
      errors := errors rep0 @ cat_errors res,
      warnings := warnings rep0 @ cat_warnings res,
      suggestions := suggestions rep0 @ cat_suggestions res\<rparr>"
    using step res by (simp add: checkDocumentStep_def setProp_fresh [OF fresh])
  have d: "distinct (map fst cats)" using Cons.prems(2) by simp
  have "fst ` set (categories rep1) \<inter> fst ` set cats = {}"
    using Cons.prems(2,3) by (auto simp add: rep1)
  note ih = Cons.IH [OF rest d this]
  show ?case using ih
    by (simp add: rep1 res_eq expectedCategory_def failedResults_append)
qed

lemma allRules_length: "length allRules = 11"
  by (simp add: allRules_def registry_defs)

lemma checkDocument_expected:
  assumes "checkDocument data = Inr rep"
  shows "totalChecks rep = 11"
    and "passedChecks rep = length (filter (rulePasses data) allRules)"
    and "errors rep = failedResults data isError allRules"
    and "warnings rep = failedResults data isWarning allRules"
    and "suggestions rep = failedResults data isOther allRules"
    and "categories rep = map (\<lambda>e. (fst e, expectedCategory data (snd e))) initCheckRules"
    and "overall rep = (if errors rep \<noteq> [] then utf16 ''fail''
           else if warnings rep \<noteq> [] then utf16 ''warning'' else utf16 ''pass'')"
    and "score rep = (200 * int (passedChecks rep) + 11) div 22"
    and "score rep = (if totalChecks rep > 0
           then Math_round (of_nat (passedChecks rep) / of_nat (totalChecks rep) * 100) else 0)"
proof -
  let ?rep0 = "\<lparr>overall = utf16 ''pass'', score = 0, totalChecks = 0, passedChecks = 0,
              errors = [], warnings = [], suggestions = [], categories = []\<rparr>"
  from assms obtain rep1 where
    loop: "forEach (checkDocumentStep data) initCheckRules ?rep0 = Inr rep1" and
    fin: "rep = finishReport rep1"
    unfolding checkDocument_def checkDocumentWith_def
    by (cases "forEach (checkDocumentStep data) initCheckRules ?rep0") auto
  have d: "distinct (map fst initCheckRules)"
    by (simp add: initCheckRules_def)
  have e: "fst ` set (categories ?rep0) \<inter> fst ` set initCheckRules = {}" by simp
  note facts = forEach_checkDocumentStep [OF loop d e]
  show t: "totalChecks rep = 11"
    using facts allRules_length by (simp add: fin finishReport_fields allRules_def)
  show "passedChecks rep = length (filter (rulePasses data) allRules)"
    using facts by (simp add: fin finishReport_fields allRules_def)
  show "errors rep = failedResults data isError allRules"
    using facts by (simp add: fin finishReport_fields allRules_def)
  show "warnings rep = failedResults data isWarning allRules"
    using facts by (simp add: fin finishReport_fields allRules_def)
  show "suggestions rep = failedResults data isOther allRules"
    using facts by (simp add: fin finishReport_fields allRules_def)
  show "categories rep = map (\<lambda>e. (fst e, expectedCategory data (snd e))) initCheckRules"
    using facts by (simp add: fin finishReport_fields)
  show "overall rep = (if errors rep \<noteq> [] then utf16 ''fail''
           else if warnings rep \<noteq> [] then utf16 ''warning'' else utf16 ''pass'')"
    by (simp add: fin finishReport_fields finishReport_overall)
  show "score rep = (200 * int (passedChecks rep) + 11) div 22"
    using t by (simp add: fin finishReport_fields finishReport_score)
  show "score rep = (if totalChecks rep > 0
           then Math_round (of_nat (passedChecks rep) / of_nat (totalChecks rep) * 100) else 0)"
    by (auto simp add: fin finishReport_def Let_def)
qed

section \<open>The predicates of the registry\<close>

text \<open>Every rule reads one property, the one its id names.\<close>

lemma registry_skeleton:
  "map (\<lambda>r. (rule_id r, check r)) allRules =
     [(utf16 ''title'', textCheck ''title'' (\<lambda>n. 0 < n)),
      (utf16 ''technicalField'', textCheck ''technicalField'' (\<lambda>n. 10 \<le> n)),
      (utf16 ''inventor'', textCheck ''inventor'' (\<lambda>n. 0 < n)),
      (utf16 ''backgroundTechnology'', textCheck ''backgroundTechnology'' (\<lambda>n. 50 \<le> n)),
      (utf16 ''currentProblems'', textCheck ''currentProblems'' (\<lambda>n. 30 \<le> n)),
      (utf16 ''technicalProblem'', textCheck ''technicalProblem'' (\<lambda>n. 20 \<le> n)),
      (utf16 ''technicalSolution'', textCheck ''technicalSolution'' (\<lambda>n. 100 \<le> n)),
      (utf16 ''keyFeatures'', listCheck),
      (utf16 ''beneficialEffects'', textCheck ''beneficialEffects'' (\<lambda>n. 30 \<le> n)),
      (utf16 ''performanceData'', textCheck ''performanceData'' (\<lambda>n. 0 < n)),
      (utf16 ''embodimentDescription'', textCheck ''embodimentDescription'' (\<lambda>n. 50 \<le> n))]"
  by (simp add: allRules_def registry_defs textCheck_def listCheck_def)

lemma rule_cases:
  assumes "r \<in> set allRules"
  shows "(\<exists>f p. rule_id r = utf16 f \<and> check r = textCheck f p \<and> f \<in> set stringFields
              \<and> \<not> p 0 \<and> (\<forall>a b. a \<le> b \<longrightarrow> p a \<longrightarrow> p b))
       \<or> (rule_id r = utf16 ''keyFeatures'' \<and> check r = listCheck)"
proof -
  have "list_all (\<lambda>(i, c).
          (\<exists>f p. i = utf16 f \<and> c = textCheck f p \<and> f \<in> set stringFields
              \<and> \<not> p 0 \<and> (\<forall>a b. a \<le> b \<longrightarrow> p a \<longrightarrow> p b))
          \<or> (i = utf16 ''keyFeatures'' \<and> c = listCheck))
        (map (\<lambda>r. (rule_id r, check r)) allRules)"
    unfolding registry_skeleton list_all_Cons_iff list_all_Nil_iff prod.case
    by (intro conjI;
        (rule TrueI
         | (rule disjI2, rule conjI, rule refl, rule refl)
         | (rule disjI1, rule exI, rule exI, intro conjI, rule refl, rule refl,
            simp_all add: stringFields_def)))
  then have "\<forall>e\<in>set (map (\<lambda>r. (rule_id r, check r)) allRules). case e of (i, c) \<Rightarrow>
          (\<exists>f p. i = utf16 f \<and> c = textCheck f p \<and> f \<in> set stringFields
              \<and> \<not> p 0 \<and> (\<forall>a b. a \<le> b \<longrightarrow> p a \<longrightarrow> p b))
          \<or> (i = utf16 ''keyFeatures'' \<and> c = listCheck)"
    unfolding list_all_iff .
  moreover have "(rule_id r, check r) \<in> set (map (\<lambda>r. (rule_id r, check r)) allRules)"
    using assms by (simp add: image_iff) blast
  ultimately have "case (rule_id r, check r) of (i, c) \<Rightarrow>
          (\<exists>f p. i = utf16 f \<and> c = textCheck f p \<and> f \<in> set stringFields
              \<and> \<not> p 0 \<and> (\<forall>a b. a \<le> b \<longrightarrow> p a \<longrightarrow> p b))
          \<or> (i = utf16 ''keyFeatures'' \<and> c = listCheck)"
    by (rule bspec)
  then show ?thesis
    unfolding prod.case .
qed

lemma textCheck_value:
  assumes "stringOrAbsent (getProp data f)"
  shows "textCheck f p data =
     Inr (case getProp data f of
            JStr s \<Rightarrow> if s = [] then JStr [] else JBool (p (length (trim s)))
          | _ \<Rightarrow> JUndefined)"
  using assms
  by (cases "getProp data f")
     (simp_all add: textCheck_def js_and_def trimLengthTest_def stringOrAbsent_def)

lemma listCheck_value:
  "listCheck data =
     Inr (JBool (case getProp data ''keyFeatures'' of JArr xs \<Rightarrow> 3 \<le> length xs | _ \<Rightarrow> False))"
  by (cases "getProp data ''keyFeatures''") (simp_all add: listCheck_def ifArray_def)

lemma wellFormed_field:
  "wellFormed data \<Longrightarrow> f \<in> set stringFields \<Longrightarrow> stringOrAbsent (getProp data f)"
  by (simp add: wellFormed_def list_all_iff)

lemma check_wellFormed:
  assumes "wellFormed data" and "r \<in> set allRules"
  shows "\<exists>v. check r data = Inr v"
  using rule_cases [OF assms(2)]
proof (elim disjE exE conjE)
  fix f p
  assume "f \<in> set stringFields" and "check r = textCheck f p"
  then show ?thesis
    using textCheck_value [OF wellFormed_field [OF assms(1)], of f p] by simp
next
  assume "check r = listCheck"
  then show ?thesis by (simp add: listCheck_value)
qed

lemma forEach_checkDocumentStep_total:
  "(\<And>r. r \<in> set (concat (map snd cats)) \<Longrightarrow> \<exists>v. check r data = Inr v) \<Longrightarrow>
     \<exists>rep. forEach (checkDocumentStep data) cats rep0 = Inr rep"
proof (induction cats arbitrary: rep0)
  case Nil
  show ?case by simp
next
  case (Cons c cats)
  have "checkCategory data (snd c) = Inr (expectedCategory data (snd c))"
    by (rule checkCategory_total) (simp add: Cons.prems)
  then obtain rep1 where "checkDocumentStep data c rep0 = Inr rep1"
    by (simp add: checkDocumentStep_def)
  moreover have "\<exists>rep. forEach (checkDocumentStep data) cats rep1 = Inr rep"
    by (rule Cons.IH) (simp add: Cons.prems)
  ultimately show ?case by simp
qed

lemma checkDocument_total:
  assumes "\<And>r. r \<in> set allRules \<Longrightarrow> \<exists>v. check r data = Inr v"
  shows "\<exists>rep. checkDocument data = Inr rep"
proof -
  obtain rep1 where "forEach (checkDocumentStep data) initCheckRules
       \<lparr>overall = utf16 ''pass'', score = 0, totalChecks = 0, passedChecks = 0,
        errors = [], warnings = [], suggestions = [], categories = []\<rparr> = Inr rep1"
    using forEach_checkDocumentStep_total [of initCheckRules data] assms
    unfolding allRules_def by blast
  then show ?thesis
    by (simp add: checkDocument_def checkDocumentWith_def)
qed

lemma forEach_checkDocumentStep_checks:
  "forEach (checkDocumentStep data) cats rep0 = Inr rep \<Longrightarrow>
   r \<in> set (concat (map snd cats)) \<Longrightarrow> \<exists>v. check r data = Inr v"
proof (induction cats arbitrary: rep0)
  case Nil
  then show ?case by simp
next
  case (Cons c cats)
  from Cons.prems(1) obtain rep1 where
    step: "checkDocumentStep data c rep0 = Inr rep1" and
    rest: "forEach (checkDocumentStep data) cats rep1 = Inr rep"
    by (cases "checkDocumentStep data c rep0") simp_all
  from step obtain res where res: "checkCategory data (snd c) = Inr res"
    by (cases "checkCategory data (snd c)") (simp_all add: checkDocumentStep_def)
  show ?case
  proof (cases "r \<in> set (snd c)")
    case True
    then show ?thesis
      using checkCategory_Inr_checks [OF res [unfolded checkCategory_def]] by blast
  next
    case False
    then show ?thesis using Cons.IH [OF rest] Cons.prems(2) by simp
  qed
qed

lemma checkDocument_Inr_checks:
  assumes "checkDocument data = Inr rep" and "r \<in> set allRules"
  shows "\<exists>v. check r data = Inr v"
proof -
  let ?rep0 = "\<lparr>overall = utf16 ''pass'', score = 0, totalChecks = 0, passedChecks = 0,
              errors = [], warnings = [], suggestions = [], categories = []\<rparr>"
  from assms(1) obtain rep1 where
    "forEach (checkDocumentStep data) initCheckRules ?rep0 = Inr rep1"
    unfolding checkDocument_def checkDocumentWith_def
    by (cases "forEach (checkDocumentStep data) initCheckRules ?rep0") auto
  then show ?thesis
    using forEach_checkDocumentStep_checks assms(2) unfolding allRules_def by blast
qed

lemma passes_or_fails:
  "check r data = Inr v \<Longrightarrow> rulePasses data r = (\<not> ruleFails data r)"
  by (simp add: rulePasses_def ruleFails_def)

lemma severity_classes:
  "isError s \<or> isWarning s \<or> isOther s"
  "\<not> (isError s \<and> isWarning s)" "\<not> (isError s \<and> isOther s)" "\<not> (isWarning s \<and> isOther s)"
  by (auto simp add: isError_def isWarning_def isOther_def utf16_inj)

lemma bucket_count:
  "(\<And>r. r \<in> set rules \<Longrightarrow> \<exists>v. check r data = Inr v) \<Longrightarrow>
     length (filter (rulePasses data) rules)
       + length (failedResults data isError rules)
       + length (failedResults data isWarning rules)
       + length (failedResults data isOther rules) = length rules"
proof (induction rules)
  case Nil
  show ?case by (simp add: failedResults_def)
next
  case (Cons r rules)
  from Cons.prems [of r] obtain v where v: "check r data = Inr v" by auto
  have ih: "length (filter (rulePasses data) rules)
       + length (failedResults data isError rules)
       + length (failedResults data isWarning rules)
       + length (failedResults data isOther rules) = length rules"
    by (rule Cons.IH) (simp add: Cons.prems)
  show ?case
    using ih passes_or_fails [OF v] severity_classes [of "rule_severity r"]
    by (auto simp add: failedResults_def)
qed

lemma cr_id_failedResults:
  "map cr_id (failedResults data sev rules) =
     map rule_id (filter (\<lambda>r. ruleFails data r \<and> sev (rule_severity r)) rules)"
  by (simp add: failedResults_def resultOf_def mkCheckResult_def comp_def)

lemma bucket_ids:
  assumes "distinct (map rule_id rules)"
  shows "distinct (map cr_id (failedResults data isError rules
            @ failedResults data isWarning rules @ failedResults data isOther rules))"
    and "set (map cr_id (failedResults data isError rules
            @ failedResults data isWarning rules @ failedResults data isOther rules))
         = rule_id ` {r \<in> set rules. ruleFails data r}"
proof -
  have inj: "inj_on rule_id (set rules)"
    using assms by (simp add: distinct_map)
  have disj: "\<And>P Q. (\<And>r. \<not> (P r \<and> Q r)) \<Longrightarrow>
      rule_id ` {r \<in> set rules. P r} \<inter> rule_id ` {r \<in> set rules. Q r} = {}"
    using inj by (auto dest: inj_onD)
  show "distinct (map cr_id (failedResults data isError rules
            @ failedResults data isWarning rules @ failedResults data isOther rules))"
    using assms severity_classes
    by (simp add: cr_id_failedResults distinct_map_filter disj Int_Un_distrib)
  show "set (map cr_id (failedResults data isError rules
            @ failedResults data isWarning rules @ failedResults data isOther rules))
         = rule_id ` {r \<in> set rules. ruleFails data r}"
    using severity_classes(1) by (auto simp add: cr_id_failedResults)
qed

lemma distinct_rule_ids: "distinct (map rule_id allRules)"
proof -
  have "map rule_id allRules = map fst (map (\<lambda>r. (rule_id r, check r)) allRules)"
    by (simp add: comp_def)
  then show ?thesis
    unfolding registry_skeleton by (simp add: utf16_inj)
qed

lemma distinct_category_ids:
  assumes "(c, rules) \<in> set initCheckRules"
  shows "distinct (map rule_id rules)" and "set rules \<subseteq> set allRules"
proof -
  show sub: "set rules \<subseteq> set allRules"
    using assms unfolding allRules_def by force
  have "map rule_id allRules = concat (map (map rule_id \<circ> snd) initCheckRules)"
    by (simp add: allRules_def map_concat)
  then have "distinct (concat (map (map rule_id \<circ> snd) initCheckRules))"
    using distinct_rule_ids by simp
  then have "\<And>ys. ys \<in> set (map (map rule_id \<circ> snd) initCheckRules) \<Longrightarrow> distinct ys"
    by (simp add: distinct_concat_iff)
  then show "distinct (map rule_id rules)"
    using assms by force
qed

lemma registry_table:
  "map (\<lambda>r. (rule_id r, rule_severity r, check r)) allRules =
     [(utf16 ''title'', utf16 ''error'', textCheck ''title'' (\<lambda>n. 0 < n)),
      (utf16 ''technicalField'', utf16 ''warning'', textCheck ''technicalField'' (\<lambda>n. 10 \<le> n)),
      (utf16 ''inventor'', utf16 ''error'', textCheck ''inventor'' (\<lambda>n. 0 < n)),
      (utf16 ''backgroundTechnology'', utf16 ''warning'', textCheck ''backgroundTechnology'' (\<lambda>n. 50 \<le> n)),
      (utf16 ''currentProblems'', utf16 ''error'', textCheck ''currentProblems'' (\<lambda>n. 30 \<le> n)),
      (utf16 ''technicalProblem'', utf16 ''error'', textCheck ''technicalProblem'' (\<lambda>n. 20 \<le> n)),
      (utf16 ''technicalSolution'', utf16 ''error'', textCheck ''technicalSolution'' (\<lambda>n. 100 \<le> n)),
      (utf16 ''keyFeatures'', utf16 ''warning'', listCheck),
      (utf16 ''beneficialEffects'', utf16 ''error'', textCheck ''beneficialEffects'' (\<lambda>n. 30 \<le> n)),
      (utf16 ''performanceData'', utf16 ''info'', textCheck ''performanceData'' (\<lambda>n. 0 < n)),
      (utf16 ''embodimentDescription'', utf16 ''warning'', textCheck ''embodimentDescription'' (\<lambda>n. 50 \<le> n))]"
  by (simp add: allRules_def registry_defs textCheck_def listCheck_def)

lemma trim_replicate_a: "trim (replicate n 0x61) = replicate n 0x61"
  by (simp add: trim_def isWhiteSpace_def)

lemma trim_ascii_examples:
  "trim (utf16 ''Widget'') = utf16 ''Widget''"
  "trim (utf16 ''Jane Doe'') = utf16 ''Jane Doe''"
  "trim (utf16 ''fast'') = utf16 ''fast''"
  by (simp_all add: trim_def isWhiteSpace_def utf16_def)

lemma utf16_Nil: "utf16 s = [] \<longleftrightarrow> s = []"
  by (simp add: utf16_def)

lemma wellFormed_scenarioC: "wellFormed scenarioC"
  by (simp add: wellFormed_def stringFields_def scenarioC_def getProp_def stringOrAbsent_def)

lemma wellFormed_scenarioB: "wellFormed scenarioB"
  by (simp add: wellFormed_def stringFields_def scenarioB_def scenarioC_def getProp_def
      stringOrAbsent_def)

lemmas example_eval = textCheck_def listCheck_def js_and_def trimLengthTest_def ifArray_def
  getProp_def trim_replicate_a trim_ascii_examples utf16_Nil utf16_inj
  isError_def isWarning_def isOther_def

lemma scenarioC_outcomes:
  "map (\<lambda>r. (rule_id r, rule_severity r, rulePasses scenarioC r, ruleFails scenarioC r)) allRules =
     [(utf16 ''title'', utf16 ''error'', True, False),
      (utf16 ''technicalField'', utf16 ''warning'', False, True),
      (utf16 ''inventor'', utf16 ''error'', True, False),
      (utf16 ''backgroundTechnology'', utf16 ''warning'', False, True),
      (utf16 ''currentProblems'', utf16 ''error'', True, False),
      (utf16 ''technicalProblem'', utf16 ''error'', True, False),
      (utf16 ''technicalSolution'', utf16 ''error'', True, False),
      (utf16 ''keyFeatures'', utf16 ''warning'', False, True),
      (utf16 ''beneficialEffects'', utf16 ''error'', True, False),
      (utf16 ''performanceData'', utf16 ''info'', False, True),
      (utf16 ''embodimentDescription'', utf16 ''warning'', False, True)]"
proof -
  have "map (\<lambda>r. (rule_id r, rule_severity r, rulePasses scenarioC r, ruleFails scenarioC r)) allRules =
        map (\<lambda>(i, s, c). (i, s, (case c scenarioC of Inl e \<Rightarrow> False | Inr v \<Rightarrow> truthy v),
                              (case c scenarioC of Inl e \<Rightarrow> False | Inr v \<Rightarrow> \<not> truthy v)))
            (map (\<lambda>r. (rule_id r, rule_severity r, check r)) allRules)"
    by (simp add: rulePasses_def ruleFails_def comp_def)
  then show ?thesis
    unfolding registry_table by (simp add: example_eval scenarioC_def)
qed

lemma checkDocument_wellFormed:
  "wellFormed data \<Longrightarrow> \<exists>rep. checkDocument data = Inr rep"
  by (rule checkDocument_total) (rule check_wellFormed)

section \<open>Looking a rule up by its id\<close>

lemma findRule_SomeD:
  "findRule f = Some r \<Longrightarrow> r \<in> set allRules \<and> rule_id r = utf16 f"
  by (auto simp add: findRule_def find_Some_iff in_set_conv_nth)

lemma check_of_id:
  assumes "r \<in> set allRules"
  shows "map_of (map (\<lambda>r. (rule_id r, check r)) allRules) (rule_id r) = Some (check r)"
proof -
  have "distinct (map fst (map (\<lambda>r. (rule_id r, check r)) allRules))"
    using distinct_rule_ids by (simp add: comp_def)
  moreover have "(rule_id r, check r) \<in> set (map (\<lambda>r. (rule_id r, check r)) allRules)"
    using assms by (simp add: image_iff) blast
  ultimately show ?thesis by (rule map_of_is_SomeI)
qed

lemma findRule_check:
  assumes "findRule f = Some r"
  shows "map_of (map (\<lambda>r. (rule_id r, check r)) allRules) (utf16 f) = Some (check r)"
  using check_of_id [of r] findRule_SomeD [OF assms] by simp

lemma findRule_exists:
  assumes "f \<in> set stringFields \<or> f = ''keyFeatures''"
  shows "\<exists>r. findRule f = Some r"
proof -
  have "utf16 f \<in> set (map fst (map (\<lambda>r. (rule_id r, check r)) allRules))"
    using assms unfolding registry_skeleton stringFields_def by auto
  then have "\<exists>r\<in>set allRules. rule_id r = utf16 f"
    by (auto simp add: comp_def)
  then show ?thesis
    unfolding findRule_def by (cases "find (\<lambda>r. rule_id r = utf16 f) allRules") (auto simp add: find_None_iff)
qed

lemma findRule_keyFeatures:
  "findRule ''keyFeatures'' = Some r \<Longrightarrow> check r = listCheck"
  using findRule_check [of "''keyFeatures''" r]
  unfolding registry_skeleton by (simp add: utf16_inj)

lemma findRule_text:
  assumes "findRule f = Some r" and "f \<in> set stringFields"
  shows "\<exists>p. check r = textCheck f p"
proof -
  have r: "r \<in> set allRules" "rule_id r = utf16 f"
    using findRule_SomeD [OF assms(1)] by simp_all
  have "f \<noteq> ''keyFeatures''"
    using assms(2) by (auto simp add: stringFields_def)
  then show ?thesis
    using rule_cases [OF r(1)] r(2) by (auto simp add: utf16_inj)
qed

section \<open>Rounding to a double\<close>

lemma binade_range: "- 1022 \<le> s \<Longrightarrow> - 1022 \<le> binade s x \<and> binade s x \<le> s"
proof (induction s x rule: binade.induct)
  case (1 e x)
  show ?case
  proof (cases "e \<le> - 1022 \<or> 2 powi e \<le> x")
    case True
    then show ?thesis using "1.prems" by (subst binade.simps, subst binade.simps) simp
  next
    case False
    then have "- 1022 \<le> e - 1" by simp
    from "1.IH" [OF False this] show ?thesis
      using False by (subst binade.simps, subst binade.simps) simp
  qed
qed

lemma binade_lower: "- 1022 < binade s x \<Longrightarrow> 2 powi (binade s x) \<le> x"
proof (induction s x rule: binade.induct)
  case (1 e x)
  show ?case
  proof (cases "e \<le> - 1022 \<or> 2 powi e \<le> x")
    case True
    then have b: "binade e x = e" by (subst binade.simps) simp
    then show ?thesis using True "1.prems" by auto
  next
    case False
    then have b: "binade e x = binade (e - 1) x" by (subst binade.simps) simp
    show ?thesis using "1.IH" [OF False] "1.prems" unfolding b by simp
  qed
qed

lemma binade_upper: "x < 2 powi (s + 1) \<Longrightarrow> x < 2 powi (binade s x + 1)"
proof (induction s x rule: binade.induct)
  case (1 e x)
  show ?case
  proof (cases "e \<le> - 1022 \<or> 2 powi e \<le> x")
    case True
    then have b: "binade e x = e" by (subst binade.simps) simp
    show ?thesis using "1.prems" unfolding b .
  next
    case False
    then have b: "binade e x = binade (e - 1) x" by (subst binade.simps) simp
    have "x < 2 powi (e - 1 + 1)" using False by simp
    from "1.IH" [OF False this] show ?thesis unfolding b .
  qed
qed

lemma powi_less_cancel: "(2::rat) powi a < 2 powi b \<Longrightarrow> a < b"
proof (rule ccontr)
  assume lt: "(2::rat) powi a < 2 powi b" and "\<not> a < b"
  then have "b \<le> a" by simp
  then have "(2::rat) powi b \<le> 2 powi a"
    by (intro power_int_increasing) simp_all
  then show False using lt by simp
qed

lemma binade_unique:
  assumes "- 1022 \<le> e" and "e \<le> s" and "2 powi e \<le> x" and "x < 2 powi (e + 1)"
  shows "binade s x = e"
proof -
  have s: "- 1022 \<le> s" using assms(1,2) by simp
  have "(2::rat) powi (e + 1) \<le> 2 powi (s + 1)"
    using assms(2) by (intro power_int_increasing) simp_all
  then have "x < 2 powi (s + 1)" using assms(4) by simp
  then have "x < 2 powi (binade s x + 1)" by (rule binade_upper)
  then have "(2::rat) powi e < 2 powi (binade s x + 1)" using assms(3) by simp
  then have le: "e \<le> binade s x" using powi_less_cancel by fastforce
  have "binade s x \<le> e"
  proof (rule ccontr)
    assume "\<not> binade s x \<le> e"
    then have gt: "e < binade s x" by simp
    then have "- 1022 < binade s x" using assms(1) by simp
    then have "2 powi (binade s x) \<le> x" by (rule binade_lower)
    then have "(2::rat) powi (binade s x) < 2 powi (e + 1)" using assms(4) by simp
    then have "binade s x < e + 1" by (rule powi_less_cancel)
    then show False using gt by simp
  qed
  then show ?thesis using le by simp
qed

lemma roundEven_bounds:
  "of_int (roundEven q) \<le> q + 1 / 2" "q - 1 / 2 \<le> of_int (roundEven q)"
proof -
  define n where "n = \<lfloor>q\<rfloor>"
  have f: "of_int n \<le> q" "q < of_int n + 1"
    unfolding n_def by linarith+
  have r: "roundEven q =
      (if q - of_int n < 1 / 2 then n
       else if 1 / 2 < q - of_int n then n + 1
       else if even n then n else n + 1)"
    by (simp add: roundEven_def n_def)
  show "of_int (roundEven q) \<le> q + 1 / 2"
  proof (cases "q - of_int n < 1 / 2")
    case True
    then show ?thesis using f unfolding r by simp
  next
    case False
    then have "of_int (roundEven q) \<le> (of_int n :: rat) + 1"
      unfolding r by simp
    then show ?thesis using False by linarith
  qed
  show "q - 1 / 2 \<le> of_int (roundEven q)"
  proof (cases "1 / 2 < q - of_int n")
    case True
    then have "roundEven q = n + 1" unfolding r by simp
    then show ?thesis using f by simp
  next
    case False
    have "(of_int n :: rat) \<le> of_int (roundEven q)"
      unfolding r by simp
    then show ?thesis using False by linarith
  qed
qed

lemma roundEven_of_int: "roundEven (of_int n) = n"
  by (simp add: roundEven_def)



lemma roundEven_near:
  assumes "\<bar>q - of_int n\<bar> < 1 / 2"
  shows "roundEven q = n"
proof -
  have c: "q - of_int n < 1 / 2" "- (1 / 2) < q - of_int n"
    using assms by (simp_all only: abs_less_iff) linarith+
  have "(of_int (roundEven q) :: rat) < of_int n + 1"
    using roundEven_bounds(1) [of q] c(1) by linarith
  then have "(of_int (roundEven q) :: rat) < of_int (n + 1)" by simp
  then have a: "roundEven q < n + 1" by (simp only: of_int_less_iff)
  have "(of_int n :: rat) - 1 < of_int (roundEven q)"
    using roundEven_bounds(2) [of q] c(2) by linarith
  then have "(of_int (n - 1) :: rat) < of_int (roundEven q)" by simp
  then have "n - 1 < roundEven q" by (simp only: of_int_less_iff)
  then show ?thesis using a by simp
qed

lemma roundDouble_in_binade:
  assumes "- 1022 \<le> e" and "e \<le> 1023" and "2 powi e \<le> x" and "x < 2 powi (e + 1)"
  shows "roundDouble x = of_int (roundEven (x / 2 powi (e - 52))) * 2 powi (e - 52)"
proof -
  have "0 < x" using assms(3) zero_less_power_int [of "2::rat" e] by linarith
  then have "\<bar>x\<bar> = x" by simp
  then show ?thesis
    using binade_unique [OF assms] by (simp add: roundDouble_def Let_def)
qed

lemma roundDouble_eval:
  assumes "- 1022 \<le> e" and "e \<le> 1023" and "2 powi e \<le> x" and "x < 2 powi (e + 1)"
      and "\<bar>x / 2 powi (e - 52) - of_int n\<bar> < 1 / 2"
  shows "roundDouble x = of_int n * 2 powi (e - 52)"
  unfolding roundDouble_in_binade [OF assms(1-4)] roundEven_near [OF assms(5)] ..



section \<open>The empty record\<close>

text \<open>
  Claim C1. On the empty record \<^verbatim>\<open>{}\<close> the checker returns a report with overall status
  \<^verbatim>\<open>fail\<close>, score 0, no passed check out of 11, and exactly six errors, all of severity
  \<^verbatim>\<open>error\<close>: title, inventor, currentProblems, technicalProblem, technicalSolution and
  beneficialEffects, in the order of the categories and of the rules in each.
\<close>

theorem checkDocument_empty_record:
  "map_sum id
     (\<lambda>r. (overall r, score r, passedChecks r, totalChecks r,
            map cr_id (errors r), map cr_severity (errors r)))
     (checkDocument Map.empty)
   = Inr (utf16 ''fail'', 0, 0, 11,
          map utf16 [''title'', ''inventor'', ''currentProblems'', ''technicalProblem'',
                     ''technicalSolution'', ''beneficialEffects''],
          map utf16 [''error'', ''error'', ''error'', ''error'', ''error'', ''error''])"
  by (simp add: registry_defs engine_defs finishReport_score finishReport_overall
      finishReport_fields utf16_inj)

section \<open>Overall status\<close>

text \<open>
  Claim C2. The overall status of a report is \<^verbatim>\<open>fail\<close> when its list of errors is not
  empty, otherwise \<^verbatim>\<open>warning\<close> when its list of warnings is not empty, otherwise
  \<^verbatim>\<open>pass\<close>; the suggestions play no part. In particular a record on which every rule of
  severity \<^verbatim>\<open>error\<close> passes and some rule of severity \<^verbatim>\<open>warning\<close> fails gets the status
  \<^verbatim>\<open>warning\<close>, with no errors and at least one warning.
\<close>

theorem overall_priority:
  assumes "checkDocument data = Inr rep"
  shows "overall rep =
           (if errors rep \<noteq> [] then utf16 ''fail''
            else if warnings rep \<noteq> [] then utf16 ''warning'' else utf16 ''pass'')
       \<and> ((\<forall>r\<in>set allRules. isError (rule_severity r) \<longrightarrow> rulePasses data r) \<longrightarrow>
          (\<exists>r\<in>set allRules. isWarning (rule_severity r) \<and> ruleFails data r) \<longrightarrow>
            overall rep = utf16 ''warning'' \<and> errors rep = [] \<and> warnings rep \<noteq> [])"
proof -
  note e = checkDocument_expected [OF assms]
  have pass_not_fail: "\<And>r. r \<in> set allRules \<Longrightarrow> rulePasses data r \<Longrightarrow> \<not> ruleFails data r"
    using checkDocument_Inr_checks [OF assms] passes_or_fails by blast
  {
    assume a: "\<forall>r\<in>set allRules. isError (rule_severity r) \<longrightarrow> rulePasses data r"
       and b: "\<exists>r\<in>set allRules. isWarning (rule_severity r) \<and> ruleFails data r"
    have "errors rep = []"
      using a pass_not_fail by (auto simp add: e(3) failedResults_def filter_empty_conv)
    moreover have "warnings rep \<noteq> []"
      using b by (auto simp add: e(4) failedResults_def filter_empty_conv)
    ultimately have "overall rep = utf16 ''warning'' \<and> errors rep = [] \<and> warnings rep \<noteq> []"
      using e(7) by simp
  }
  then show ?thesis using e(7) by blast
qed

theorem overall_priority_witness:
  "\<exists>rep. checkDocument scenarioC = Inr rep \<and> overall rep = utf16 ''warning''
         \<and> errors rep = [] \<and> warnings rep \<noteq> [] \<and> suggestions rep \<noteq> []"
proof -
  obtain rep where rep: "checkDocument scenarioC = Inr rep"
    using checkDocument_wellFormed [OF wellFormed_scenarioC] by blast
  have a: "\<forall>r\<in>set allRules. isError (rule_severity r) \<longrightarrow> rulePasses scenarioC r"
  proof -
    have "list_all (\<lambda>(i, s, p, f). isError s \<longrightarrow> p)
            (map (\<lambda>r. (rule_id r, rule_severity r, rulePasses scenarioC r, ruleFails scenarioC r)) allRules)"
      unfolding scenarioC_outcomes by (simp add: isError_def utf16_inj)
    then show ?thesis by (simp add: list_all_iff)
  qed
  have b: "\<exists>r\<in>set allRules. isWarning (rule_severity r) \<and> ruleFails scenarioC r"
  proof -
    have "list_ex (\<lambda>(i, s, p, f). isWarning s \<and> f)
            (map (\<lambda>r. (rule_id r, rule_severity r, rulePasses scenarioC r, ruleFails scenarioC r)) allRules)"
      unfolding scenarioC_outcomes by (simp add: isWarning_def utf16_inj)
    then show ?thesis by (simp add: list_ex_iff)
  qed
  have c: "\<exists>r\<in>set allRules. isOther (rule_severity r) \<and> ruleFails scenarioC r"
  proof -
    have "list_ex (\<lambda>(i, s, p, f). isOther s \<and> f)
            (map (\<lambda>r. (rule_id r, rule_severity r, rulePasses scenarioC r, ruleFails scenarioC r)) allRules)"
      unfolding scenarioC_outcomes by (simp add: isOther_def utf16_inj)
    then show ?thesis by (simp add: list_ex_iff)
  qed
  have "suggestions rep \<noteq> []"
    using c by (auto simp add: checkDocument_expected(5) [OF rep] failedResults_def filter_empty_conv)
  then show ?thesis
    using overall_priority [OF rep] a b rep by blast
qed

section \<open>Category results\<close>

text \<open>
  Claim C3. In the report of any record there is one result per category of the
  registry, in order. For each of them: the total is the number of rules of the
  category; the passed count plus the lengths of the three lists is the total; the passed
  count is the number of passing rules; the errors, warnings and suggestions are the
  results of the failing rules of severity \<^verbatim>\<open>error\<close>, of severity \<^verbatim>\<open>warning\<close> and of any
  other severity, in rule order; and the ids in the three lists together are without
  repetition and are exactly the ids of the failing rules, so that a failing rule is in
  one list once and a passing rule in none.
\<close>

theorem category_invariant:
  assumes "checkDocument data = Inr rep"
  shows "map fst (categories rep) = map fst initCheckRules
       \<and> (\<forall>(c, res)\<in>set (categories rep). \<exists>rules.
            map_of initCheckRules c = Some rules
          \<and> cat_total res = length rules
          \<and> cat_passed res + length (cat_errors res) + length (cat_warnings res)
              + length (cat_suggestions res) = cat_total res
          \<and> cat_passed res = length (filter (rulePasses data) rules)
          \<and> cat_errors res = failedResults data isError rules
          \<and> cat_warnings res = failedResults data isWarning rules
          \<and> cat_suggestions res = failedResults data isOther rules
          \<and> distinct (map cr_id (cat_errors res @ cat_warnings res @ cat_suggestions res))
          \<and> set (map cr_id (cat_errors res @ cat_warnings res @ cat_suggestions res))
              = rule_id ` {r \<in> set rules. ruleFails data r})"
proof -
  note e = checkDocument_expected [OF assms]
  have d: "distinct (map fst initCheckRules)"
    by (simp add: initCheckRules_def)
  have keys: "map fst (categories rep) = map fst initCheckRules"
    by (simp add: e(6) comp_def)
  have each: "\<exists>rules.
            map_of initCheckRules c = Some rules
          \<and> cat_total res = length rules
          \<and> cat_passed res + length (cat_errors res) + length (cat_warnings res)
              + length (cat_suggestions res) = cat_total res
          \<and> cat_passed res = length (filter (rulePasses data) rules)
          \<and> cat_errors res = failedResults data isError rules
          \<and> cat_warnings res = failedResults data isWarning rules
          \<and> cat_suggestions res = failedResults data isOther rules
          \<and> distinct (map cr_id (cat_errors res @ cat_warnings res @ cat_suggestions res))
          \<and> set (map cr_id (cat_errors res @ cat_warnings res @ cat_suggestions res))
              = rule_id ` {r \<in> set rules. ruleFails data r}"
    if "(c, res) \<in> set (categories rep)" for c res
  proof -
    from that obtain rules where in_reg: "(c, rules) \<in> set initCheckRules"
      and res: "res = expectedCategory data rules"
      by (auto simp add: e(6))
    have m: "map_of initCheckRules c = Some rules"
      using d in_reg by simp
    have checks: "\<And>r. r \<in> set rules \<Longrightarrow> \<exists>v. check r data = Inr v"
      using checkDocument_Inr_checks [OF assms] distinct_category_ids(2) [OF in_reg] by blast
    note cnt = bucket_count [of rules data, OF checks]
    note ids = bucket_ids [OF distinct_category_ids(1) [OF in_reg], of data]
    show ?thesis
      using m cnt ids by (intro exI [of _ rules]) (simp add: res expectedCategory_def)
  qed
  show ?thesis using keys each by blast
qed

lemma category_sizes: "map (\<lambda>e. length (snd e)) initCheckRules = [3, 2, 3, 2, 1]"
  by (simp add: registry_defs)

theorem category_invariant_witness:
  "\<exists>rep. checkDocument scenarioC = Inr rep
     \<and> map fst (categories rep) =
         [''basicInfo'', ''backgroundTech'', ''technicalSolution'', ''technicalEffects'', ''implementation'']
     \<and> list_all (\<lambda>(c, res). cat_passed res + length (cat_errors res) + length (cat_warnings res)
              + length (cat_suggestions res) = cat_total res) (categories rep)
     \<and> map (cat_total \<circ> snd) (categories rep) = [3, 2, 3, 2, 1]"
proof -
  obtain rep where rep: "checkDocument scenarioC = Inr rep"
    using checkDocument_wellFormed [OF wellFormed_scenarioC] by blast
  note inv = category_invariant [OF rep]
  have "map fst (categories rep) = map fst initCheckRules"
    using inv by (rule conjunct1)
  then have keys: "map fst (categories rep) =
         [''basicInfo'', ''backgroundTech'', ''technicalSolution'', ''technicalEffects'', ''implementation'']"
    by (simp add: initCheckRules_def)
  have sums: "list_all (\<lambda>(c, res). cat_passed res + length (cat_errors res) + length (cat_warnings res)
              + length (cat_suggestions res) = cat_total res) (categories rep)"
    unfolding list_all_iff
  proof
    fix e
    assume e: "e \<in> set (categories rep)"
    obtain c res where cr: "e = (c, res)" by (cases e)
    from inv [THEN conjunct2, THEN bspec, OF e]
    have "cat_passed res + length (cat_errors res) + length (cat_warnings res)
              + length (cat_suggestions res) = cat_total res"
      unfolding cr prod.case by (elim exE conjE)
    then show "case e of (c, res) \<Rightarrow> cat_passed res + length (cat_errors res)
         + length (cat_warnings res) + length (cat_suggestions res) = cat_total res"
      by (simp add: cr)
  qed
  have "map (cat_total \<circ> snd) (categories rep) = map (\<lambda>e. length (snd e)) initCheckRules"
    unfolding checkDocument_expected(6) [OF rep] by (simp add: expectedCategory_def)
  then have sizes: "map (cat_total \<circ> snd) (categories rep) = [3, 2, 3, 2, 1]"
    by (simp only: category_sizes)
  show ?thesis
    by (intro exI [of _ rep] conjI) (fact rep keys sums sizes)+
qed

section \<open>Score\<close>

lemma Math_round_nonneg: "0 \<le> x \<Longrightarrow> Math_round x = roundHalfAway x"
  by (simp add: Math_round_def roundHalfAway_def)

text \<open>
  Claim C4. The score of a report is the ratio of passed to total checks, times 100,
  rounded to the nearest integer with a tie going away from zero, and 0 when there is no
  check; it lies between 0 and 100.
\<close>

theorem score_rounding:
  assumes "checkDocument data = Inr rep"
  shows "score rep =
           (if totalChecks rep > 0
            then roundHalfAway (of_nat (passedChecks rep) / of_nat (totalChecks rep) * 100)
            else 0)
       \<and> 0 \<le> score rep \<and> score rep \<le> 100"
proof -
  note e = checkDocument_expected [OF assms]
  have "passedChecks rep \<le> length allRules"
    by (simp add: e(2))
  then have le: "passedChecks rep \<le> 11"
    by (simp add: allRules_length)
  have nonneg: "(0::rat) \<le> of_nat (passedChecks rep) / of_nat (totalChecks rep) * 100"
    by simp
  have "score rep = roundHalfAway (of_nat (passedChecks rep) / of_nat (totalChecks rep) * 100)"
    using e(1) e(9) Math_round_nonneg [OF nonneg] by simp
  moreover have "0 \<le> score rep" "score rep \<le> 100"
    using le by (simp_all add: e(8))
  ultimately show ?thesis using e(1) by simp
qed

theorem score_rounding_witness:
  "\<exists>rep. checkDocument scenarioC = Inr rep \<and> passedChecks rep = 6 \<and> totalChecks rep = 11
         \<and> score rep = roundHalfAway (6 / 11 * 100) \<and> score rep = 55"
proof -
  obtain rep where rep: "checkDocument scenarioC = Inr rep"
    using checkDocument_wellFormed [OF wellFormed_scenarioC] by blast
  note e = checkDocument_expected [OF rep]
  have "length (filter (rulePasses scenarioC) allRules)
      = length (filter (\<lambda>(i, s, p, f). p)
          (map (\<lambda>r. (rule_id r, rule_severity r, rulePasses scenarioC r, ruleFails scenarioC r)) allRules))"
    by (simp add: filter_map comp_def)
  then have p: "passedChecks rep = 6"
    unfolding scenarioC_outcomes by (simp add: e(2))
  have "score rep = 55"
    using p by (simp add: e(8))
  then show ?thesis
    using score_rounding [OF rep] p e(1) rep by auto
qed

section \<open>No exception on a well-formed record\<close>

text \<open>
  Claim C6. On a well-formed record (each text field absent or a string, \<^verbatim>\<open>keyFeatures\<close>
  anything) \<open>checkDocument\<close> returns a report and every predicate returns a value. The
  findings are in that report: its errors, warnings and suggestions are the results of
  the failing rules of the respective severity, every failing rule has its result in one
  of the three lists, and the two counters are 11 and the number of passing rules. The
  predicate for \<^verbatim>\<open>keyFeatures\<close> returns \<^verbatim>\<open>false\<close> on every value that is not a list, and the
  predicate of a text field that is absent returns the falsy \<^verbatim>\<open>undefined\<close>: the rule fails,
  nothing is thrown.
\<close>

theorem checkDocument_no_exception:
  assumes "wellFormed data"
  shows "(\<exists>rep. checkDocument data = Inr rep
            \<and> errors rep = failedResults data isError allRules
            \<and> warnings rep = failedResults data isWarning allRules
            \<and> suggestions rep = failedResults data isOther allRules
            \<and> totalChecks rep = 11
            \<and> passedChecks rep = length (filter (rulePasses data) allRules)
            \<and> (\<forall>r\<in>set allRules. ruleFails data r \<longrightarrow>
                  resultOf data r \<in> set (errors rep @ warnings rep @ suggestions rep)))
       \<and> (\<forall>r\<in>set allRules. \<exists>v. check r data = Inr v)
       \<and> (\<forall>r\<in>set allRules. rulePasses data r \<or> ruleFails data r)
       \<and> (\<forall>r. findRule ''keyFeatures'' = Some r \<longrightarrow>
              (\<forall>xs. getProp data ''keyFeatures'' \<noteq> JArr xs) \<longrightarrow>
              check r data = Inr (JBool False) \<and> ruleFails data r)
       \<and> (\<forall>f r. f \<in> set stringFields \<longrightarrow> findRule f = Some r \<longrightarrow>
              getProp data f = JUndefined \<longrightarrow>
              check r data = Inr JUndefined \<and> ruleFails data r)"
proof (intro conjI allI impI ballI)
  obtain rep where rep: "checkDocument data = Inr rep"
    using checkDocument_wellFormed [OF assms] by blast
  note e = checkDocument_expected [OF rep]
  have listed: "resultOf data r \<in> set (errors rep @ warnings rep @ suggestions rep)"
    if "r \<in> set allRules" and "ruleFails data r" for r
    using that severity_classes(1) [of "rule_severity r"]
    by (auto simp add: e(3,4,5) failedResults_def)
  show "\<exists>rep. checkDocument data = Inr rep
            \<and> errors rep = failedResults data isError allRules
            \<and> warnings rep = failedResults data isWarning allRules
            \<and> suggestions rep = failedResults data isOther allRules
            \<and> totalChecks rep = 11
            \<and> passedChecks rep = length (filter (rulePasses data) allRules)
            \<and> (\<forall>r\<in>set allRules. ruleFails data r \<longrightarrow>
                  resultOf data r \<in> set (errors rep @ warnings rep @ suggestions rep))"
    using rep e(1,2,3,4,5) listed by (intro exI [of _ rep]) simp
next
  fix r assume "r \<in> set allRules"
  then show "\<exists>v. check r data = Inr v"
    using assms by (rule check_wellFormed [rotated])
next
  fix r assume "r \<in> set allRules"
  then obtain v where "check r data = Inr v"
    using check_wellFormed [OF assms] by blast
  then show "rulePasses data r \<or> ruleFails data r"
    by (simp add: rulePasses_def ruleFails_def)
next
  fix r
  assume r: "findRule ''keyFeatures'' = Some r"
     and n: "\<forall>xs. getProp data ''keyFeatures'' \<noteq> JArr xs"
  have "check r data = Inr (JBool False)"
    using n unfolding findRule_keyFeatures [OF r] listCheck_value
    by (cases "getProp data ''keyFeatures''") simp_all
  then show "check r data = Inr (JBool False)" and "ruleFails data r"
    by (simp_all add: ruleFails_def)
next
  fix f r
  assume f: "f \<in> set stringFields" and r: "findRule f = Some r"
     and u: "getProp data f = JUndefined"
  obtain p where p: "check r = textCheck f p"
    using findRule_text [OF r f] by blast
  have "check r data = Inr JUndefined"
    unfolding p using textCheck_value [of data f p] u by (simp add: stringOrAbsent_def)
  then show "check r data = Inr JUndefined" and "ruleFails data r"
    by (simp_all add: ruleFails_def)
qed

theorem checkDocument_no_exception_witness:
  "wellFormed featuresNotAList
   \<and> (\<exists>rep r. checkDocument featuresNotAList = Inr rep
         \<and> findRule ''keyFeatures'' = Some r
         \<and> check r featuresNotAList = Inr (JBool False)
         \<and> ruleFails featuresNotAList r
         \<and> resultOf featuresNotAList r \<in> set (errors rep @ warnings rep @ suggestions rep)
         \<and> passed (resultOf featuresNotAList r) = JBool False
         \<and> totalChecks rep = 11)
   \<and> (\<exists>r. findRule ''technicalField'' = Some r \<and> check r featuresNotAList = Inr JUndefined)"
proof -
  have wf: "wellFormed featuresNotAList"
    by (simp add: wellFormed_def stringFields_def featuresNotAList_def scenarioC_def getProp_def
        stringOrAbsent_def)
  note t = checkDocument_no_exception [OF wf]
  have "\<exists>rep. checkDocument featuresNotAList = Inr rep \<and> totalChecks rep = 11
      \<and> (\<forall>r\<in>set allRules. ruleFails featuresNotAList r \<longrightarrow>
            resultOf featuresNotAList r \<in> set (errors rep @ warnings rep @ suggestions rep))"
    by (insert t, elim exE conjE, intro exI conjI, assumption+)
  then obtain rep where rep: "checkDocument featuresNotAList = Inr rep" "totalChecks rep = 11"
    and listed: "\<forall>r\<in>set allRules. ruleFails featuresNotAList r \<longrightarrow>
            resultOf featuresNotAList r \<in> set (errors rep @ warnings rep @ suggestions rep)"
    by (elim exE conjE)
  have kf: "\<forall>r. findRule ''keyFeatures'' = Some r \<longrightarrow>
              (\<forall>xs. getProp featuresNotAList ''keyFeatures'' \<noteq> JArr xs) \<longrightarrow>
              check r featuresNotAList = Inr (JBool False) \<and> ruleFails featuresNotAList r"
    by (insert t, elim conjE, assumption)
  have tf: "\<forall>f r. f \<in> set stringFields \<longrightarrow> findRule f = Some r \<longrightarrow>
              getProp featuresNotAList f = JUndefined \<longrightarrow>
              check r featuresNotAList = Inr JUndefined \<and> ruleFails featuresNotAList r"
    by (insert t, elim conjE, assumption)
  obtain r1 where r1: "findRule ''keyFeatures'' = Some r1"
    using findRule_exists [of "''keyFeatures''"] by auto
  obtain r2 where r2: "findRule ''technicalField'' = Some r2"
    using findRule_exists [of "''technicalField''"] by (auto simp add: stringFields_def)
  have k: "\<forall>xs. getProp featuresNotAList ''keyFeatures'' \<noteq> JArr xs"
    by (simp add: featuresNotAList_def getProp_def)
  have u: "getProp featuresNotAList ''technicalField'' = JUndefined"
    by (simp add: featuresNotAList_def scenarioC_def getProp_def)
  have f: "''technicalField'' \<in> set stringFields"
    by (simp add: stringFields_def)
  have c1: "check r1 featuresNotAList = Inr (JBool False)" "ruleFails featuresNotAList r1"
    using kf r1 k by blast+
  have c2: "check r2 featuresNotAList = Inr JUndefined"
    using tf r2 u f by blast
  have m1: "r1 \<in> set allRules"
    using findRule_SomeD [OF r1] by simp
  have in_lists: "resultOf featuresNotAList r1 \<in> set (errors rep @ warnings rep @ suggestions rep)"
    using listed m1 c1(2) by blast
  have pv: "passed (resultOf featuresNotAList r1) = JBool False"
    by (simp add: resultOf_def mkCheckResult_def c1(1))
  have first: "\<exists>rep r. checkDocument featuresNotAList = Inr rep
         \<and> findRule ''keyFeatures'' = Some r
         \<and> check r featuresNotAList = Inr (JBool False)
         \<and> ruleFails featuresNotAList r
         \<and> resultOf featuresNotAList r \<in> set (errors rep @ warnings rep @ suggestions rep)
         \<and> passed (resultOf featuresNotAList r) = JBool False
         \<and> totalChecks rep = 11"
    by (intro exI [of _ rep] exI [of _ r1] conjI) (fact rep r1 c1 in_lists pv)+
  have second: "\<exists>r. findRule ''technicalField'' = Some r \<and> check r featuresNotAList = Inr JUndefined"
    using r2 c2 by blast
  show ?thesis
    by (intro conjI) (fact wf first second)+
qed

section \<open>Length thresholds\<close>

lemma textCheck_passes:
  assumes "getProp data f = JStr s"
  shows "(case textCheck f p data of Inl e \<Rightarrow> False | Inr v \<Rightarrow> truthy v) = (s \<noteq> [] \<and> p (length (trim s)))"
    and "(case textCheck f p data of Inl e \<Rightarrow> False | Inr v \<Rightarrow> \<not> truthy v) = (s = [] \<or> \<not> p (length (trim s)))"
  using assms by (auto simp add: textCheck_def js_and_def trimLengthTest_def)

lemma trim_Nil: "trim [] = []"
  by (simp add: trim_def)

lemma le_Suc_0_eta: "(\<le>) (Suc 0) = (<) (0::nat)"
  by (rule ext) (simp add: Suc_le_eq)

lemma threshold_table:
  "list_all (\<lambda>(f, n). map_of (map (\<lambda>r. (rule_id r, check r)) allRules) (utf16 f)
                          = Some (textCheck f (\<lambda>k. n \<le> k)) \<and> 0 < n) minLengthRules"
  unfolding registry_skeleton minLengthRules_def by (simp add: utf16_inj le_Suc_0_eta)

lemma threshold_of_rule:
  assumes "(f, n) \<in> set minLengthRules" and "findRule f = Some r"
  shows "check r = textCheck f (\<lambda>k. n \<le> k) \<and> 0 < n"
proof -
  have "map_of (map (\<lambda>r. (rule_id r, check r)) allRules) (utf16 f)
          = Some (textCheck f (\<lambda>k. n \<le> k)) \<and> 0 < n"
    using threshold_table assms(1) unfolding list_all_iff by fastforce
  then show ?thesis
    using findRule_check [OF assms(2)] by simp
qed

text \<open>
  Claim C5, as the code has it. Each text rule is an inclusive threshold on the trimmed
  value of its field, measured in UTF-16 code units (what \<^verbatim>\<open>.length\<close> counts): a string
  passes exactly when its trimmed length is at least the threshold, so a value of exactly
  the threshold passes and one code unit less fails. An absent field fails, as the empty
  string does; the same holds for the \<^verbatim>\<open>keyFeatures\<close> rule.
\<close>

theorem min_length_inclusive:
  assumes "(f, n) \<in> set minLengthRules" and "findRule f = Some r"
  shows "(\<forall>s. getProp data f = JStr s \<longrightarrow>
            rulePasses data r = (n \<le> length (trim s)) \<and>
            ruleFails data r = (length (trim s) < n))
       \<and> (getProp data f = JUndefined \<or> getProp data f = JStr [] \<longrightarrow>
            ruleFails data r \<and> \<not> rulePasses data r)
       \<and> (\<forall>k. findRule ''keyFeatures'' = Some k \<longrightarrow>
            getProp data ''keyFeatures'' = JUndefined \<or> getProp data ''keyFeatures'' = JStr [] \<longrightarrow>
            ruleFails data k \<and> \<not> rulePasses data k)"
proof -
  have chk: "check r = textCheck f (\<lambda>k. n \<le> k)" and n: "0 < n"
    using threshold_of_rule [OF assms] by simp_all
  have a: "rulePasses data r = (n \<le> length (trim s)) \<and> ruleFails data r = (length (trim s) < n)"
    if g: "getProp data f = JStr s" for s
  proof -
    have 1: "rulePasses data r = (s \<noteq> [] \<and> n \<le> length (trim s))"
      unfolding rulePasses_def chk by (rule textCheck_passes(1) [OF g])
    have 2: "ruleFails data r = (s = [] \<or> \<not> n \<le> length (trim s))"
      unfolding ruleFails_def chk by (rule textCheck_passes(2) [OF g])
    have 3: "s = [] \<Longrightarrow> length (trim s) = 0"
      by (simp add: trim_Nil)
    show ?thesis
      unfolding 1 2 using 3 n by (cases "s = []") auto
  qed
  have b: "ruleFails data r \<and> \<not> rulePasses data r"
    if "getProp data f = JUndefined \<or> getProp data f = JStr []"
    unfolding rulePasses_def ruleFails_def chk textCheck_def js_and_def
    using that by auto
  have c: "ruleFails data k \<and> \<not> rulePasses data k"
    if "findRule ''keyFeatures'' = Some k"
      and "getProp data ''keyFeatures'' = JUndefined \<or> getProp data ''keyFeatures'' = JStr []" for k
    using that(2)
    by (auto simp add: rulePasses_def ruleFails_def findRule_keyFeatures [OF that(1)] listCheck_value)
  show ?thesis using a b c by blast
qed

theorem min_length_inclusive_witness:
  "(''technicalSolution'', 100) \<in> set minLengthRules
   \<and> (\<exists>r. findRule ''technicalSolution'' = Some r
        \<and> rulePasses [''technicalSolution'' \<mapsto> JStr (replicate 100 0x61)] r
        \<and> ruleFails [''technicalSolution'' \<mapsto> JStr (replicate 99 0x61)] r
        \<and> ruleFails Map.empty r
        \<and> ruleFails [''technicalSolution'' \<mapsto> JStr []] r)
   \<and> (\<exists>k. findRule ''keyFeatures'' = Some k \<and> ruleFails Map.empty k)"
proof -
  have m: "(''technicalSolution'', 100) \<in> set minLengthRules"
    by (simp add: minLengthRules_def)
  obtain r where r: "findRule ''technicalSolution'' = Some r"
    using findRule_exists [of "''technicalSolution''"] by (auto simp add: stringFields_def)
  have "rulePasses [''technicalSolution'' \<mapsto> JStr (replicate 100 0x61)] r"
    using min_length_inclusive [OF m r, of "[''technicalSolution'' \<mapsto> JStr (replicate 100 0x61)]"]
    by (simp add: getProp_def trim_replicate_a)
  moreover have "ruleFails [''technicalSolution'' \<mapsto> JStr (replicate 99 0x61)] r"
    using min_length_inclusive [OF m r, of "[''technicalSolution'' \<mapsto> JStr (replicate 99 0x61)]"]
    by (simp add: getProp_def trim_replicate_a)
  moreover have "ruleFails Map.empty r"
    using min_length_inclusive [OF m r, of Map.empty]
    by (simp add: getProp_def)
  moreover have "ruleFails [''technicalSolution'' \<mapsto> JStr []] r"
    using min_length_inclusive [OF m r, of "[''technicalSolution'' \<mapsto> JStr []]"]
    by (simp add: getProp_def trim_Nil)
  moreover obtain k where k: "findRule ''keyFeatures'' = Some k"
    using findRule_exists [of "''keyFeatures''"] by auto
  moreover have "ruleFails Map.empty k"
    using min_length_inclusive [OF m r, of Map.empty] k
    by (simp add: getProp_def)
  ultimately show ?thesis using m r by blast
qed

text \<open>
  Claim C5 as stated measures the threshold in code points. The trimmed text
  \<open>astralText\<close> has nine code points, one less than the threshold of ten of
  \<^verbatim>\<open>technicalField\<close>, and the rule passes on it, because it has ten code units.
\<close>

theorem code_points_counterexample:
  "codePoints (trim astralText) = 9
   \<and> length (trim astralText) = 10
   \<and> map_of minLengthRules ''technicalField'' = Some 10
   \<and> map_option (rulePasses astralRecord) (findRule ''technicalField'') = Some True"
proof -
  have t: "trim astralText = astralText"
    by (simp add: trim_def astralText_def isWhiteSpace_def)
  have cp: "codePoints astralText = 9"
    by (simp add: astralText_def isHighSurrogate_def isLowSurrogate_def)
  have len: "length astralText = 10"
    by (simp add: astralText_def)
  have m: "map_of minLengthRules ''technicalField'' = Some 10"
    by (simp add: minLengthRules_def)
  obtain r where r: "findRule ''technicalField'' = Some r"
    using findRule_exists [of "''technicalField''"] by (auto simp add: stringFields_def)
  have "check r = textCheck ''technicalField'' (\<lambda>n. 10 \<le> n)"
    using findRule_check [OF r, unfolded registry_skeleton] by (simp add: utf16_inj)
  then have "rulePasses astralRecord r"
    using len by (simp add: rulePasses_def textCheck_def js_and_def trimLengthTest_def getProp_def
        astralRecord_def t) (simp add: astralText_def)
  then show ?thesis using t cp len m r by simp
qed

section \<open>The value stored in a result\<close>

lemma textCheck_wellFormed_value:
  assumes "stringOrAbsent (getProp data f)" and "textCheck f p data = Inr v"
  shows "(truthy v \<longrightarrow> v = JBool True) \<and> (\<not> truthy v \<longrightarrow> v = JBool False \<or> v = JUndefined \<or> v = JStr [])"
proof (cases "getProp data f")
  case JUndefined
  then have "v = JUndefined"
    using assms(2) textCheck_value [OF assms(1), of p] by simp
  then show ?thesis by simp
next
  case (JStr s)
  then have "v = (if s = [] then JStr [] else JBool (p (length (trim s))))"
    using assms(2) textCheck_value [OF assms(1), of p] by simp
  then show ?thesis by (cases "s = []") auto
qed (use assms(1) in \<open>simp_all add: stringOrAbsent_def\<close>)

lemma checkRule_result:
  assumes "check r data = Inr v"
  shows "\<exists>res'. checkRule data r res = Inr res'
     \<and> (\<not> truthy v \<longrightarrow> mkCheckResult r v \<in> set (cat_errors res' @ cat_warnings res' @ cat_suggestions res')
            \<and> cat_passed res' = cat_passed res)
     \<and> (truthy v \<longrightarrow> cat_passed res' = cat_passed res + 1 \<and> cat_errors res' = cat_errors res
            \<and> cat_warnings res' = cat_warnings res \<and> cat_suggestions res' = cat_suggestions res)"
  using assms by (simp add: checkRule_def Let_def)

text \<open>
  Claim C8, as the code has it. On a well-formed record the result object built for a
  rule copies the rule's id, name, description, severity and suggestion, and its
  \<^verbatim>\<open>passed\<close> field is the value the predicate returned. That value is \<^verbatim>\<open>true\<close> when the
  predicate holds. When it does not hold the value is falsy, but it is \<^verbatim>\<open>false\<close> only for
  a non-empty text below its threshold and for \<^verbatim>\<open>keyFeatures\<close>: it is \<^verbatim>\<open>undefined\<close> for an
  absent field and the empty string for an empty one. A failing rule's result goes into
  one of the three lists, a passing rule's into none.
\<close>

theorem check_result_value:
  assumes "wellFormed data" and "r \<in> set allRules"
  shows "\<exists>v. check r data = Inr v
     \<and> (rulePasses data r \<longrightarrow> v = JBool True)
     \<and> (ruleFails data r \<longrightarrow> v = JBool False \<or> v = JUndefined \<or> v = JStr [])
     \<and> (\<forall>f. rule_id r = utf16 f \<longrightarrow> f \<noteq> ''keyFeatures'' \<longrightarrow>
            (getProp data f = JUndefined \<longrightarrow> v = JUndefined)
          \<and> (getProp data f = JStr [] \<longrightarrow> v = JStr [])
          \<and> (\<forall>s. getProp data f = JStr s \<longrightarrow> s \<noteq> [] \<longrightarrow> isBoolean v))
     \<and> (rule_id r = utf16 ''keyFeatures'' \<longrightarrow> isBoolean v)
     \<and> passed (mkCheckResult r v) = v
     \<and> cr_id (mkCheckResult r v) = rule_id r
     \<and> cr_name (mkCheckResult r v) = rule_name r
     \<and> cr_description (mkCheckResult r v) = rule_description r
     \<and> cr_severity (mkCheckResult r v) = rule_severity r
     \<and> cr_suggestion (mkCheckResult r v) = rule_suggestion r
     \<and> (\<forall>res. \<exists>res'. checkRule data r res = Inr res'
          \<and> (ruleFails data r \<longrightarrow>
                mkCheckResult r v \<in> set (cat_errors res' @ cat_warnings res' @ cat_suggestions res')
                \<and> cat_passed res' = cat_passed res)
          \<and> (rulePasses data r \<longrightarrow>
                cat_passed res' = cat_passed res + 1 \<and> cat_errors res' = cat_errors res
                \<and> cat_warnings res' = cat_warnings res \<and> cat_suggestions res' = cat_suggestions res))"
proof -
  obtain v where v: "check r data = Inr v"
    using check_wellFormed [OF assms] by blast
  have pf: "rulePasses data r = truthy v" "ruleFails data r = (\<not> truthy v)"
    using v by (simp_all add: rulePasses_def ruleFails_def)
  have shape: "(truthy v \<longrightarrow> v = JBool True)
       \<and> (\<not> truthy v \<longrightarrow> v = JBool False \<or> v = JUndefined \<or> v = JStr [])"
    using rule_cases [OF assms(2)]
  proof (elim disjE exE conjE)
    fix f p
    assume "f \<in> set stringFields" and c: "check r = textCheck f p"
    then show ?thesis
      using textCheck_wellFormed_value [OF wellFormed_field [OF assms(1)], of f p v] v by simp
  next
    assume "check r = listCheck"
    then show ?thesis using v by (auto simp add: listCheck_value)
  qed
  have byField: "(\<forall>f. rule_id r = utf16 f \<longrightarrow> f \<noteq> ''keyFeatures'' \<longrightarrow>
            (getProp data f = JUndefined \<longrightarrow> v = JUndefined)
          \<and> (getProp data f = JStr [] \<longrightarrow> v = JStr [])
          \<and> (\<forall>s. getProp data f = JStr s \<longrightarrow> s \<noteq> [] \<longrightarrow> isBoolean v))
     \<and> (rule_id r = utf16 ''keyFeatures'' \<longrightarrow> isBoolean v)"
    using rule_cases [OF assms(2)]
  proof (elim disjE exE conjE)
    fix f0 p
    assume f0: "f0 \<in> set stringFields" and rid: "rule_id r = utf16 f0"
       and c: "check r = textCheck f0 p"
    have nk: "f0 \<noteq> ''keyFeatures''"
      using f0 by (auto simp add: stringFields_def)
    have val: "v = (case getProp data f0 of
            JStr s \<Rightarrow> if s = [] then JStr [] else JBool (p (length (trim s)))
          | _ \<Rightarrow> JUndefined)"
      using textCheck_value [OF wellFormed_field [OF assms(1) f0], of p] v c by simp
    have "(getProp data f0 = JUndefined \<longrightarrow> v = JUndefined)
          \<and> (getProp data f0 = JStr [] \<longrightarrow> v = JStr [])
          \<and> (\<forall>s. getProp data f0 = JStr s \<longrightarrow> s \<noteq> [] \<longrightarrow> isBoolean v)"
      unfolding val by (simp add: isBoolean_def)
    then show ?thesis
      using rid nk by (auto simp add: utf16_inj)
  next
    assume "rule_id r = utf16 ''keyFeatures''" and "check r = listCheck"
    then show ?thesis
      using v by (auto simp add: listCheck_value isBoolean_def utf16_inj)
  qed
  have fields: "passed (mkCheckResult r v) = v
     \<and> cr_id (mkCheckResult r v) = rule_id r
     \<and> cr_name (mkCheckResult r v) = rule_name r
     \<and> cr_description (mkCheckResult r v) = rule_description r
     \<and> cr_severity (mkCheckResult r v) = rule_severity r
     \<and> cr_suggestion (mkCheckResult r v) = rule_suggestion r"
    by (simp add: mkCheckResult_def)
  show ?thesis
    using v shape byField fields checkRule_result [OF v] unfolding pf
    by (intro exI [of _ v]) simp
qed

theorem check_result_value_witness:
  "(\<exists>r v. findRule ''technicalField'' = Some r \<and> ruleFails scenarioC r
      \<and> check r scenarioC = Inr v \<and> v = JUndefined \<and> passed (mkCheckResult r v) = v
      \<and> cr_id (mkCheckResult r v) = utf16 ''technicalField'')
   \<and> (\<exists>t v. findRule ''title'' = Some t \<and> rulePasses scenarioC t
      \<and> check t scenarioC = Inr v \<and> v = JBool True \<and> passed (mkCheckResult t v) = v)"
proof -
  obtain r where r: "findRule ''technicalField'' = Some r"
    using findRule_exists [of "''technicalField''"] by (auto simp add: stringFields_def)
  have mem: "r \<in> set allRules" and rid: "rule_id r = utf16 ''technicalField''"
    using findRule_SomeD [OF r] by simp_all
  have absent: "getProp scenarioC ''technicalField'' = JUndefined"
    by (simp add: scenarioC_def getProp_def)
  have "\<exists>v. check r scenarioC = Inr v \<and> passed (mkCheckResult r v) = v
      \<and> cr_id (mkCheckResult r v) = rule_id r
      \<and> (\<forall>f. rule_id r = utf16 f \<longrightarrow> f \<noteq> ''keyFeatures'' \<longrightarrow>
            (getProp scenarioC f = JUndefined \<longrightarrow> v = JUndefined)
          \<and> (getProp scenarioC f = JStr [] \<longrightarrow> v = JStr [])
          \<and> (\<forall>s. getProp scenarioC f = JStr s \<longrightarrow> s \<noteq> [] \<longrightarrow> isBoolean v))"
    by (insert check_result_value [OF wellFormed_scenarioC mem],
        elim exE conjE, intro exI conjI, assumption+)
  then obtain v where v: "check r scenarioC = Inr v" "passed (mkCheckResult r v) = v"
    "cr_id (mkCheckResult r v) = rule_id r"
    "\<forall>f. rule_id r = utf16 f \<longrightarrow> f \<noteq> ''keyFeatures'' \<longrightarrow>
            (getProp scenarioC f = JUndefined \<longrightarrow> v = JUndefined)
          \<and> (getProp scenarioC f = JStr [] \<longrightarrow> v = JStr [])
          \<and> (\<forall>s. getProp scenarioC f = JStr s \<longrightarrow> s \<noteq> [] \<longrightarrow> isBoolean v)"
    by (elim exE conjE)
  have vu: "v = JUndefined"
    using v(4) [THEN spec, of "''technicalField''"] rid absent by simp
  have rf: "ruleFails scenarioC r"
    using v(1) vu by (simp add: ruleFails_def)
  obtain t where t: "findRule ''title'' = Some t"
    using findRule_exists [of "''title''"] by (auto simp add: stringFields_def)
  have tmem: "t \<in> set allRules"
    using findRule_SomeD [OF t] by simp
  have "check t = textCheck ''title'' (\<lambda>n. 0 < n)"
    using findRule_check [OF t, unfolded registry_skeleton] by (simp add: utf16_inj)
  then have tp: "rulePasses scenarioC t"
    by (simp add: rulePasses_def scenarioC_def example_eval)
  have "\<exists>u. check t scenarioC = Inr u \<and> (rulePasses scenarioC t \<longrightarrow> u = JBool True)
      \<and> passed (mkCheckResult t u) = u"
    by (insert check_result_value [OF wellFormed_scenarioC tmem],
        elim exE conjE, intro exI conjI, assumption+)
  then obtain u where u: "check t scenarioC = Inr u" "rulePasses scenarioC t \<longrightarrow> u = JBool True"
    "passed (mkCheckResult t u) = u"
    by (elim exE conjE)
  have ut: "u = JBool True" using u(2) tp by simp
  have first: "\<exists>r v. findRule ''technicalField'' = Some r \<and> ruleFails scenarioC r
      \<and> check r scenarioC = Inr v \<and> v = JUndefined \<and> passed (mkCheckResult r v) = v
      \<and> cr_id (mkCheckResult r v) = utf16 ''technicalField''"
    using r rf v(1,2,3) vu rid by auto
  have second: "\<exists>t v. findRule ''title'' = Some t \<and> rulePasses scenarioC t
      \<and> check t scenarioC = Inr v \<and> v = JBool True \<and> passed (mkCheckResult t v) = v"
    using t tp u(1,3) ut by auto
  show ?thesis using first second by (rule conjI)
qed

text \<open>
  Claim C8 as stated makes \<^verbatim>\<open>passed\<close> a boolean. On the empty record all eleven rules fail
  and are listed, and ten of the eleven \<^verbatim>\<open>passed\<close> values are \<^verbatim>\<open>undefined\<close>; only the one
  of \<^verbatim>\<open>keyFeatures\<close> is \<^verbatim>\<open>false\<close>.
\<close>

theorem passed_boolean_counterexample:
  "passedValues (checkDocument Map.empty) =
     [JUndefined, JUndefined, JUndefined, JUndefined, JUndefined, JUndefined,
      JUndefined, JUndefined, JBool False, JUndefined, JUndefined]
   \<and> \<not> isBoolean JUndefined
   \<and> \<not> list_all isBoolean (passedValues (checkDocument Map.empty))"
proof -
  have "passedValues (checkDocument Map.empty) =
     [JUndefined, JUndefined, JUndefined, JUndefined, JUndefined, JUndefined,
      JUndefined, JUndefined, JBool False, JUndefined, JUndefined]"
    by (simp add: passedValues_def registry_defs engine_defs finishReport_def Let_def utf16_inj)
  then show ?thesis by (simp add: isBoolean_def)
qed

section \<open>Changing one field\<close>

lemma textCheck_passes_iff:
  "(case textCheck f p data of Inl e \<Rightarrow> False | Inr v \<Rightarrow> truthy v)
     = (\<exists>s. getProp data f = JStr s \<and> s \<noteq> [] \<and> p (length (trim s)))"
  by (cases "getProp data f") (auto simp add: textCheck_def js_and_def trimLengthTest_def)

lemma listCheck_passes_iff:
  "(case listCheck data of Inl e \<Rightarrow> False | Inr v \<Rightarrow> truthy v)
     = (\<exists>xs. getProp data ''keyFeatures'' = JArr xs \<and> 3 \<le> length xs)"
  by (cases "getProp data ''keyFeatures''") (simp_all add: listCheck_def ifArray_def)

lemma improves_Str:
  "improves (JStr s) v' = (\<exists>s'. v' = JStr s' \<and> length (trim s) \<le> length (trim s'))"
  by (cases v') simp_all

lemma improves_Arr:
  "improves (JArr xs) v' = (\<exists>ys. v' = JArr ys \<and> length xs \<le> length ys)"
  by (cases v') simp_all

lemma trim_nonempty: "0 < length (trim s) \<Longrightarrow> s \<noteq> []"
  by (auto simp add: trim_def)

text \<open>
  Claim C9, as the code has it. Let two records differ in the field \<open>f\<close> only. A rule
  whose id is not \<open>f\<close> has the same outcome on both, whatever the change. If the new value
  of \<open>f\<close> improves on the old one (a string whose trimmed text is at least as long, or a
  list with at least as many elements), a rule over \<open>f\<close> that passed on the old record
  passes on the new one: the change can move it from failing to passing, never back.
\<close>

theorem field_monotonicity:
  assumes "r \<in> set allRules" and "\<forall>g. g \<noteq> f \<longrightarrow> data' g = data g"
  shows "(rule_id r \<noteq> utf16 f \<longrightarrow> check r data' = check r data)
       \<and> (rule_id r = utf16 f \<longrightarrow> improves (getProp data f) (getProp data' f) \<longrightarrow>
            rulePasses data r \<longrightarrow> rulePasses data' r)"
  using rule_cases [OF assms(1)]
proof (elim disjE exE conjE)
  fix f0 p
  assume rid: "rule_id r = utf16 f0" and c: "check r = textCheck f0 p"
     and p0: "\<not> p 0" and mono: "\<forall>a b. a \<le> b \<longrightarrow> p a \<longrightarrow> p b"
  have frame: "check r data' = check r data" if "rule_id r \<noteq> utf16 f"
  proof -
    have "f0 \<noteq> f" using that rid by auto
    then have "getProp data' f0 = getProp data f0"
      using assms(2) by (simp add: getProp_def)
    then show ?thesis by (simp add: c textCheck_def)
  qed
  have keep: "rulePasses data' r"
    if "rule_id r = utf16 f" and i: "improves (getProp data f) (getProp data' f)"
      and pass: "rulePasses data r"
  proof -
    have ff: "f0 = f" using that(1) rid by (simp add: utf16_inj)
    from pass obtain s where s: "getProp data f = JStr s" "p (length (trim s))"
      unfolding rulePasses_def c textCheck_passes_iff ff by blast
    from i obtain s' where s': "getProp data' f = JStr s'" "length (trim s) \<le> length (trim s')"
      unfolding s(1) improves_Str by blast
    have ps': "p (length (trim s'))"
      using mono s(2) s'(2) by blast
    then have "0 < length (trim s')"
      using p0 by (cases "length (trim s')") auto
    then have "s' \<noteq> []" by (rule trim_nonempty)
    then show ?thesis
      unfolding rulePasses_def c textCheck_passes_iff ff using s'(1) ps' by blast
  qed
  show ?thesis using frame keep by blast
next
  assume rid: "rule_id r = utf16 ''keyFeatures''" and c: "check r = listCheck"
  have frame: "check r data' = check r data" if "rule_id r \<noteq> utf16 f"
  proof -
    have "''keyFeatures'' \<noteq> f" using that rid by auto
    then have "getProp data' ''keyFeatures'' = getProp data ''keyFeatures''"
      using assms(2) by (simp add: getProp_def)
    then show ?thesis by (simp add: c listCheck_def)
  qed
  have keep: "rulePasses data' r"
    if "rule_id r = utf16 f" and i: "improves (getProp data f) (getProp data' f)"
      and pass: "rulePasses data r"
  proof -
    have ff: "f = ''keyFeatures''" using that(1) rid by (simp add: utf16_inj)
    from pass obtain xs where xs: "getProp data f = JArr xs" "3 \<le> length xs"
      unfolding rulePasses_def c listCheck_passes_iff ff by blast
    from i obtain ys where ys: "getProp data' f = JArr ys" "length xs \<le> length ys"
      unfolding xs(1) improves_Arr by blast
    show ?thesis
      unfolding rulePasses_def c listCheck_passes_iff using xs(2) ys unfolding ff by auto
  qed
  show ?thesis using frame keep by blast
qed

theorem field_monotonicity_witness:
  "\<exists>r t. findRule ''backgroundTechnology'' = Some r \<and> findRule ''title'' = Some t
      \<and> improves (getProp background50 ''backgroundTechnology'') (getProp background60 ''backgroundTechnology'')
      \<and> rulePasses background50 r \<and> rulePasses background60 r
      \<and> check t background60 = check t background50
      \<and> improves (getProp background10 ''backgroundTechnology'') (getProp background60 ''backgroundTechnology'')
      \<and> ruleFails background10 r"
proof -
  obtain r where r: "findRule ''backgroundTechnology'' = Some r"
    using findRule_exists [of "''backgroundTechnology''"] by (auto simp add: stringFields_def)
  obtain t where t: "findRule ''title'' = Some t"
    using findRule_exists [of "''title''"] by (auto simp add: stringFields_def)
  have rm: "r \<in> set allRules" "rule_id r = utf16 ''backgroundTechnology''"
    using findRule_SomeD [OF r] by simp_all
  have tm: "t \<in> set allRules" "rule_id t \<noteq> utf16 ''backgroundTechnology''"
    using findRule_SomeD [OF t] by (simp_all add: utf16_inj)
  have only: "\<forall>g. g \<noteq> ''backgroundTechnology'' \<longrightarrow> background60 g = background50 g"
    by (simp add: background60_def)
  have imp: "improves (getProp background50 ''backgroundTechnology'')
                      (getProp background60 ''backgroundTechnology'')"
    by (simp add: background60_def background50_def getProp_def trim_replicate_a)
  have c50: "check r = textCheck ''backgroundTechnology'' (\<lambda>n. 50 \<le> n)"
    using findRule_check [OF r, unfolded registry_skeleton] by (simp add: utf16_inj)
  have f10: "ruleFails background10 r"
    by (simp add: c50 ruleFails_def textCheck_def js_and_def trimLengthTest_def getProp_def
        background10_def trim_replicate_a)
  have imp10: "improves (getProp background10 ''backgroundTechnology'')
                      (getProp background60 ''backgroundTechnology'')"
    by (simp add: background60_def background50_def background10_def getProp_def trim_replicate_a)
  have p50: "rulePasses background50 r"
    by (simp add: c50 rulePasses_def textCheck_def js_and_def trimLengthTest_def getProp_def
        background50_def trim_replicate_a)
  have p60: "rulePasses background60 r"
    using field_monotonicity [OF rm(1) only] rm(2) imp p50 by blast
  have same: "check t background60 = check t background50"
    using field_monotonicity [OF tm(1) only] tm(2) by blast
  show ?thesis
    by (intro exI [of _ r] exI [of _ t] conjI) (fact r t imp p50 p60 same imp10 f10)+
qed

text \<open>
  Claim C9 as stated lets any change of the field move its rule from failing to passing
  only. Changing \<^verbatim>\<open>technicalField\<close> alone from ten letters to nine letters and two spaces
  makes the value longer, and takes the rule from passing to failing, because the
  threshold is on the trimmed text.
\<close>

theorem any_change_counterexample:
  "fieldPadded = fieldOfTen(''technicalField'' \<mapsto> JStr nineLettersPadded)
   \<and> getProp fieldOfTen ''technicalField'' = JStr tenLetters
   \<and> length tenLetters = 10 \<and> length nineLettersPadded = 11
   \<and> map_option (rulePasses fieldOfTen) (findRule ''technicalField'') = Some True
   \<and> map_option (rulePasses fieldPadded) (findRule ''technicalField'') = Some False
   \<and> map_option (ruleFails fieldPadded) (findRule ''technicalField'') = Some True"
proof -
  obtain r where r: "findRule ''technicalField'' = Some r"
    using findRule_exists [of "''technicalField''"] by (auto simp add: stringFields_def)
  have c: "check r = textCheck ''technicalField'' (\<lambda>n. 10 \<le> n)"
    using findRule_check [OF r, unfolded registry_skeleton] by (simp add: utf16_inj)
  have t10: "trim tenLetters = tenLetters"
    by (simp add: trim_def tenLetters_def isWhiteSpace_def)
  have t9: "length (trim nineLettersPadded) = 9"
    by (simp add: trim_def nineLettersPadded_def isWhiteSpace_def)
  have l: "length tenLetters = 10" "length nineLettersPadded = 11"
    "tenLetters \<noteq> []" "nineLettersPadded \<noteq> []"
    by (simp_all add: tenLetters_def nineLettersPadded_def)
  have g: "getProp fieldOfTen ''technicalField'' = JStr tenLetters"
    "getProp fieldPadded ''technicalField'' = JStr nineLettersPadded"
    by (simp_all add: fieldOfTen_def fieldPadded_def getProp_def)
  have p: "rulePasses fieldOfTen r"
    by (simp add: rulePasses_def c textCheck_def js_and_def trimLengthTest_def g l t10)
  have f: "ruleFails fieldPadded r" "\<not> rulePasses fieldPadded r"
    by (simp_all add: rulePasses_def ruleFails_def c textCheck_def js_and_def trimLengthTest_def g l t9)
  show ?thesis
    using r p f g(1) l(1,2) by (simp add: fieldPadded_def)
qed


section \<open>The rendered report\<close>

lemma fold_reportItem: "fold reportItem xs report = report @ concat (map itemLine xs)"
  by (induction xs arbitrary: report) (simp_all add: reportItem_def itemLine_def)

lemma reportCategory_block: "reportCategory entry report = report @ categoryBlock entry"
  by (simp add: reportCategory_def categoryBlock_def countLine_def Let_def)

lemma fold_reportCategory:
  "fold reportCategory cs report = report @ concat (map categoryBlock cs)"
  by (induction cs arbitrary: report) (simp_all add: reportCategory_block)

lemma generateReport_blocks:
  "generateReport r =
     overallBlock r
     @ (if errors r = [] then [] else errorsSection (errors r))
     @ (if warnings r = [] then [] else warningsSection (warnings r))
     @ (if suggestions r = [] then [] else suggestionsSection (suggestions r))
     @ detailsBlock (categories r)"
  by (simp add: generateReport_def Let_def fold_reportItem fold_reportCategory overallBlock_def
      errorsSection_def warningsSection_def suggestionsSection_def reportSection_def
      detailsBlock_def)

text \<open>
  Claim C7. \<open>generateReport\<close> is a function of the report alone. Its text is the
  overall-assessment block, then the errors section, the warnings section and the
  suggestions section, each present exactly when its list is not empty (a section that is
  present is never the empty text), then the details block with one entry per category.
  On a report whose three lists are empty the text is the overall block followed by the
  details block. In the entry of a category the lines counting errors, warnings and
  suggestions appear exactly when the respective list of the category is not empty.
\<close>

theorem generateReport_sections:
  "generateReport r =
     overallBlock r
     @ (if errors r = [] then [] else errorsSection (errors r))
     @ (if warnings r = [] then [] else warningsSection (warnings r))
     @ (if suggestions r = [] then [] else suggestionsSection (suggestions r))
     @ detailsBlock (categories r)
   \<and> overallBlock r \<noteq> [] \<and> errorsSection xs \<noteq> [] \<and> warningsSection xs \<noteq> []
   \<and> suggestionsSection xs \<noteq> [] \<and> countLine label n \<noteq> []
   \<and> (errors r = [] \<and> warnings r = [] \<and> suggestions r = [] \<longrightarrow>
        generateReport r = overallBlock r @ detailsBlock (categories r))
   \<and> detailsBlock (categories r) =
        [0x23, 0x23, 0x20, 0x5206, 0x7C7B, 0x8BE6, 0x60C5, 0xA, 0xA]
        @ concat (map categoryBlock (categories r))
   \<and> fold reportCategory cs report = report @ concat (map categoryBlock cs)
   \<and> categoryBlock (c, res) =
        [0x23, 0x23, 0x23, 0x20] @ getCategoryName c @ [0xA, 0xA]
        @ [0x2D, 0x20, 0x901A, 0x8FC7, 0x3A, 0x20] @ digitsOf (cat_passed res)
        @ [0x2F] @ digitsOf (cat_total res) @ [0xA]
        @ (if cat_errors res = [] then []
           else countLine [0x2D, 0x20, 0x9519, 0x8BEF, 0x3A, 0x20] (length (cat_errors res)))
        @ (if cat_warnings res = [] then []
           else countLine [0x2D, 0x20, 0x8B66, 0x544A, 0x3A, 0x20] (length (cat_warnings res)))
        @ (if cat_suggestions res = [] then []
           else countLine [0x2D, 0x20, 0x5EFA, 0x8BAE, 0x3A, 0x20] (length (cat_suggestions res)))
        @ [0xA]"
proof -
  have "overallBlock r \<noteq> []" by (simp add: overallBlock_def)
  moreover have "errorsSection xs \<noteq> []" "warningsSection xs \<noteq> []" "suggestionsSection xs \<noteq> []"
    by (simp_all add: errorsSection_def warningsSection_def suggestionsSection_def reportSection_def)
  moreover have "countLine label n \<noteq> []" by (simp add: countLine_def)
  moreover have "errors r = [] \<and> warnings r = [] \<and> suggestions r = [] \<longrightarrow>
        generateReport r = overallBlock r @ detailsBlock (categories r)"
    by (simp add: generateReport_blocks)
  moreover have "detailsBlock (categories r) =
        [0x23, 0x23, 0x20, 0x5206, 0x7C7B, 0x8BE6, 0x60C5, 0xA, 0xA]
        @ concat (map categoryBlock (categories r))"
    by (simp add: detailsBlock_def)
  moreover have "categoryBlock (c, res) =
        [0x23, 0x23, 0x23, 0x20] @ getCategoryName c @ [0xA, 0xA]
        @ [0x2D, 0x20, 0x901A, 0x8FC7, 0x3A, 0x20] @ digitsOf (cat_passed res)
        @ [0x2F] @ digitsOf (cat_total res) @ [0xA]
        @ (if cat_errors res = [] then []
           else countLine [0x2D, 0x20, 0x9519, 0x8BEF, 0x3A, 0x20] (length (cat_errors res)))
        @ (if cat_warnings res = [] then []
           else countLine [0x2D, 0x20, 0x8B66, 0x544A, 0x3A, 0x20] (length (cat_warnings res)))
        @ (if cat_suggestions res = [] then []
           else countLine [0x2D, 0x20, 0x5EFA, 0x8BAE, 0x3A, 0x20] (length (cat_suggestions res)))
        @ [0xA]"
    by (simp add: categoryBlock_def)
  ultimately show ?thesis
    using generateReport_blocks [of r] fold_reportCategory [of cs report] by blast
qed

lemma scenarioB_outcomes:
  "map (\<lambda>r. (rule_id r, rulePasses scenarioB r, ruleFails scenarioB r)) allRules =
     [(utf16 ''title'', True, False),
      (utf16 ''technicalField'', True, False),
      (utf16 ''inventor'', True, False),
      (utf16 ''backgroundTechnology'', True, False),
      (utf16 ''currentProblems'', True, False),
      (utf16 ''technicalProblem'', True, False),
      (utf16 ''technicalSolution'', True, False),
      (utf16 ''keyFeatures'', True, False),
      (utf16 ''beneficialEffects'', True, False),
      (utf16 ''performanceData'', True, False),
      (utf16 ''embodimentDescription'', True, False)]"
proof -
  have "map (\<lambda>r. (rule_id r, rulePasses scenarioB r, ruleFails scenarioB r)) allRules =
        map (\<lambda>(i, s, c). (i, (case c scenarioB of Inl e \<Rightarrow> False | Inr v \<Rightarrow> truthy v),
                              (case c scenarioB of Inl e \<Rightarrow> False | Inr v \<Rightarrow> \<not> truthy v)))
            (map (\<lambda>r. (rule_id r, rule_severity r, check r)) allRules)"
    by (simp add: rulePasses_def ruleFails_def comp_def)
  then show ?thesis
    unfolding registry_table by (simp add: example_eval scenarioB_def scenarioC_def)
qed

lemma scenarioB_text:
  "map_sum id generateReport (checkDocument scenarioB) = Inr allPassedText"
  by (simp add: registry_defs engine_defs finishReport_score finishReport_overall
      finishReport_fields Let_def utf16_inj scenarioB_def scenarioC_def trimLengthTest_def
      trim_replicate_a trim_ascii_examples utf16_Nil
      generateReport_def reportCategory_def getCategoryName_def nameMap_def
      getStatusText_def statusMap_def toStringInt_def digitsOf.simps allPassedText_def)

theorem generateReport_sections_witness:
  "\<exists>rep. checkDocument scenarioB = Inr rep
     \<and> errors rep = [] \<and> warnings rep = [] \<and> suggestions rep = []
     \<and> generateReport rep = overallBlock rep @ detailsBlock (categories rep)
     \<and> generateReport rep = allPassedText
     \<and> length (categories rep) = 5"
proof -
  obtain rep where rep: "checkDocument scenarioB = Inr rep"
    using checkDocument_wellFormed [OF wellFormed_scenarioB] by blast
  note e = checkDocument_expected [OF rep]
  have "list_all (\<lambda>(i, p, f). \<not> f)
          (map (\<lambda>r. (rule_id r, rulePasses scenarioB r, ruleFails scenarioB r)) allRules)"
    unfolding scenarioB_outcomes by simp
  then have nofail: "\<forall>r\<in>set allRules. \<not> ruleFails scenarioB r"
    by (simp add: list_all_iff)
  have lists: "errors rep = []" "warnings rep = []" "suggestions rep = []"
    using nofail by (simp_all add: e(3,4,5) failedResults_def filter_empty_conv)
  have blocks: "generateReport rep = overallBlock rep @ detailsBlock (categories rep)"
    using generateReport_sections [of rep] lists by blast
  have literal: "generateReport rep = allPassedText"
    using scenarioB_text by (simp add: rep)
  have five: "length (categories rep) = 5"
    by (simp add: e(6) initCheckRules_def)
  show ?thesis
    by (intro exI [of _ rep] conjI) (fact rep lists blocks literal five)+
qed

section \<open>What the auto-fix suggestions are\<close>










lemma double_0_123_product:
  "isDouble double_0_123"
  "\<lfloor>timesDouble double_0_123 1000\<rfloor> = 123"
  "\<lfloor>double_0_123 * 1000\<rfloor> = 122"
proof -
  have "roundDouble double_0_123 = of_int 8863084066665136 * 2 powi (- 4 - 52)"
    by (rule roundDouble_eval) (simp_all add: power_int_minus_divide double_0_123_def)
  then show "isDouble double_0_123"
    by (simp add: isDouble_def power_int_minus_divide double_0_123_def)
  have "roundDouble (double_0_123 * 1000) = of_int 8655355533852672 * 2 powi (6 - 52)"
    by (rule roundDouble_eval) (simp_all add: power_int_minus_divide double_0_123_def)
  then have "timesDouble double_0_123 1000 = 123"
    by (simp add: timesDouble_def power_int_minus_divide)
  then show "\<lfloor>timesDouble double_0_123 1000\<rfloor> = 123"
    by simp
  show "\<lfloor>double_0_123 * 1000\<rfloor> = 122"
    by (simp add: double_0_123_def floor_eq_iff)
qed







end
